theory Spec2Isabelle
  imports Main "HOL-Library.Multiset"
begin

text \<open>
  The agentloop inference gateways: the text chunker and the audio concatenation of
  the chatterbox TTS server (\<open>scripts/services/chatterbox/server.py\<close>), the request
  validation of the chatterbox, kokomo (\<open>scripts/kokomo/server.py\<close>), mlx
  (\<open>scripts/services/mlx/server.py\<close>) and vlm (\<open>scripts/vlm/server.py\<close>) servers,
  and the lock around generation in the mlx server, embedded as functions and
  verified against the properties their specification states.
\<close>

section \<open>Python strings\<close>

text \<open>
  A Python 3 \<open>str\<close> is a sequence of Unicode code points and \<open>len\<close> counts code points,
  so a string is modelled as the list of its code points. \<open>pystr_of\<close> reads an ASCII
  literal.
\<close>

type_synonym codepoint = nat
type_synonym pystr = "codepoint list"

definition pystr_of :: "string \<Rightarrow> pystr" where
  "pystr_of s = map of_char s"

text \<open>
  The whitespace class shared by \<open>str.strip()\<close>, \<open>str.split()\<close> and the \<open>\\s\<close> of a
  \<open>str\<close> pattern in \<open>re\<close>: tab to carriage return, the four separators
  \<open>0x1C\<close> to \<open>0x1F\<close>, the space, \<open>0x85\<close>, \<open>0xA0\<close>, and the Unicode spaces.
\<close>

definition isspace :: "codepoint \<Rightarrow> bool" where
  "isspace c \<longleftrightarrow>
     (9 \<le> c \<and> c \<le> 13) \<or> (28 \<le> c \<and> c \<le> 32) \<or> c = 133 \<or> c = 160 \<or> c = 5760 \<or>
     (8192 \<le> c \<and> c \<le> 8202) \<or> c = 8232 \<or> c = 8233 \<or> c = 8239 \<or> c = 8287 \<or>
     c = 12288"

definition SPACE :: codepoint where
  "SPACE = 32"

text \<open>\<open>s.strip()\<close>: leading and trailing whitespace removed.\<close>

definition strip :: "pystr \<Rightarrow> pystr" where
  "strip s = rev (dropWhile isspace (rev (dropWhile isspace s)))"

text \<open>
  \<open>s.split()\<close>: the maximal runs of non-whitespace, in order. \<open>split_ws w s\<close> scans
  \<open>s\<close> with the word begun so far in \<open>w\<close>.
\<close>

fun split_ws :: "pystr \<Rightarrow> pystr \<Rightarrow> pystr list" where
  "split_ws w [] = (if w = [] then [] else [w])"
| "split_ws w (c # cs) =
     (if isspace c then (if w = [] then split_ws [] cs else w # split_ws [] cs)
      else split_ws (w @ [c]) cs)"

definition py_split :: "pystr \<Rightarrow> pystr list" where
  "py_split s = split_ws [] s"

text \<open>
  \<open>re.split(r"(?<=[X])\\s+", s)\<close> for a set \<open>X\<close> of non-whitespace characters: the
  pattern matches a maximal run of whitespace that directly follows a character of
  \<open>X\<close>, and the result lists the pieces between the matches (the last piece is empty
  when the string ends in a match). \<open>resplit_go X cur s\<close> scans \<open>s\<close> with the piece
  begun so far in \<open>cur\<close>.
\<close>

function resplit_go :: "(codepoint \<Rightarrow> bool) \<Rightarrow> pystr \<Rightarrow> pystr \<Rightarrow> pystr list" where
  "resplit_go X cur [] = [cur]"
| "resplit_go X cur (c # cs) =
     (if X c \<and> cs \<noteq> [] \<and> isspace (hd cs)
      then (cur @ [c]) # resplit_go X [] (dropWhile isspace cs)
      else resplit_go X (cur @ [c]) cs)"
  by pat_completeness auto
termination
  by (relation "measure (\<lambda>(X, cur, s). length s)")
     (auto intro: le_imp_less_Suc length_dropWhile_le)

definition sentence_end :: "codepoint \<Rightarrow> bool" where
  "sentence_end c \<longleftrightarrow> c = 46 \<or> c = 33 \<or> c = 63"

definition comma :: "codepoint \<Rightarrow> bool" where
  "comma c \<longleftrightarrow> c = 44"

section \<open>The text chunker\<close>

text \<open>
  \<open>_split_text\<close> of \<open>scripts/services/chatterbox/server.py\<close>. Each \<open>for\<close> loop is a
  recursion over the list it iterates, carrying the variables it assigns:
  \<open>chunks\<close> and \<open>word_chunk\<close> in the word loop, \<open>chunks\<close> and \<open>current\<close> in the two
  outer loops. \<open>flush\<close> is the recurring \<open>if x: chunks.append(x.strip())\<close>.
\<close>

definition flush :: "pystr list \<Rightarrow> pystr \<Rightarrow> pystr list" where
  "flush chunks x = (if x \<noteq> [] then chunks @ [strip x] else chunks)"

fun word_loop :: "int \<Rightarrow> pystr list \<Rightarrow> pystr \<Rightarrow> pystr list \<Rightarrow> pystr list \<times> pystr" where
  "word_loop max_chars chunks word_chunk [] = (chunks, word_chunk)"
| "word_loop max_chars chunks word_chunk (word # words) =
     (if int (length (word_chunk @ [SPACE] @ word)) \<le> max_chars
      then word_loop max_chars chunks (strip (word_chunk @ [SPACE] @ word)) words
      else word_loop max_chars (flush chunks word_chunk) word words)"

fun part_loop :: "int \<Rightarrow> pystr list \<Rightarrow> pystr \<Rightarrow> pystr list \<Rightarrow> pystr list \<times> pystr" where
  "part_loop max_chars chunks current [] = (chunks, current)"
| "part_loop max_chars chunks current (part # parts) =
     (if int (length part) > max_chars
      then (case word_loop max_chars chunks [] (py_split part) of
              (chunks', word_chunk) \<Rightarrow>
                part_loop max_chars (flush chunks' word_chunk) current parts)
      else if int (length (current @ [SPACE] @ part)) \<le> max_chars
      then part_loop max_chars chunks (strip (current @ [SPACE] @ part)) parts
      else part_loop max_chars (flush chunks current) part parts)"

fun sentence_loop :: "int \<Rightarrow> pystr list \<Rightarrow> pystr \<Rightarrow> pystr list \<Rightarrow> pystr list \<times> pystr" where
  "sentence_loop max_chars chunks current [] = (chunks, current)"
| "sentence_loop max_chars chunks current (sentence # sentences) =
     (if int (length sentence) > max_chars
      then (case part_loop max_chars (flush chunks current) [] (resplit_go comma [] sentence) of
              (chunks', current') \<Rightarrow> sentence_loop max_chars chunks' current' sentences)
      else if int (length (current @ [SPACE] @ sentence)) \<le> max_chars
      then sentence_loop max_chars chunks (strip (current @ [SPACE] @ sentence)) sentences
      else sentence_loop max_chars (flush chunks current) sentence sentences)"

definition split_text :: "pystr \<Rightarrow> int \<Rightarrow> pystr list" where
  "split_text text max_chars =
     (if int (length text) \<le> max_chars then [text]
      else (case sentence_loop max_chars [] [] (resplit_go sentence_end [] text) of
              (chunks, current) \<Rightarrow> filter (\<lambda>c. strip c \<noteq> []) (flush chunks current)))"

subsection \<open>Vocabulary of the chunker's properties\<close>

text \<open>
  A word is a non-empty string without whitespace; \<open>chunk_words\<close> lists the words of a
  list of chunks in order, which is what joining the chunks with single spaces and
  normalising whitespace keeps of them. \<open>join_space\<close> is \<open>" ".join(chunks)\<close>.
\<close>

definition is_word :: "pystr \<Rightarrow> bool" where
  "is_word w \<longleftrightarrow> w \<noteq> [] \<and> (\<forall>c\<in>set w. \<not> isspace c)"

definition chunk_words :: "pystr list \<Rightarrow> pystr list" where
  "chunk_words chunks = concat (map py_split chunks)"

fun join_space :: "pystr list \<Rightarrow> pystr" where
  "join_space [] = []"
| "join_space [c] = c"
| "join_space (c # cs) = c @ [SPACE] @ join_space cs"

text \<open>\<open>chunk_ok m t c\<close>: the chunk \<open>c\<close> fits the budget \<open>m\<close> or is a word of \<open>t\<close>.\<close>

definition chunk_ok :: "int \<Rightarrow> pystr \<Rightarrow> pystr \<Rightarrow> bool" where
  "chunk_ok m t c \<longleftrightarrow> int (length c) \<le> m \<or> c \<in> set (py_split t)"

section \<open>Exceptions and floating-point numbers\<close>

text \<open>
  An exception is a value: \<open>Raised msg\<close> is an exception of a collaborator (the model,
  a library) with the text \<open>str(e)\<close> gives; \<open>IndexError\<close> is Python's own for
  \<open>wavs[0]\<close> on an empty list, \<open>AttributeError\<close> for \<open>.get\<close> on a value that is not a
  \<open>dict\<close>, \<open>OverflowError\<close> and \<open>ValueError\<close> for a conversion between \<open>int\<close> and
  \<open>float\<close> that has no result; \<open>TorchError\<close> stands for the \<open>RuntimeError\<close> of a
  \<open>torch\<close> call the model evaluates itself.
\<close>

datatype exn =
  Raised pystr | IndexError | AttributeError | OverflowError | ValueError | TorchError

text \<open>
  A Python \<open>float\<close> is an IEEE 754 double: \<open>Finite m e\<close> is the number \<open>m * 2 ^ e\<close>,
  beside the two infinities and \<open>NaN\<close>. The sign of a zero is not kept; nothing here
  depends on it.
\<close>

datatype pyfloat = Finite int int | PosInf | NegInf | NaN

text \<open>\<open>n.bit_length()\<close>: the number of binary digits of \<open>n\<close>.\<close>

function bit_length :: "nat \<Rightarrow> nat" where
  "bit_length n = (if n = 0 then 0 else Suc (bit_length (n div 2)))"
  by pat_completeness auto
termination
  by (relation "measure id") auto

declare bit_length.simps [simp del]

text \<open>
  \<open>round_double m e\<close> is the double nearest to \<open>m * 2 ^ e\<close>, a tie going to the even
  significand, as every arithmetic operation on doubles rounds its exact result. The
  doubles are the numbers \<open>q * 2 ^ E\<close> with \<open>q < 2 ^ 53\<close> and \<open>E \<ge> -1074\<close>, below
  \<open>2 ^ 1024\<close> in magnitude: \<open>E\<close> is the exponent of the last digit kept, \<open>s\<close> the
  number of digits dropped, \<open>r\<close> their value and \<open>h\<close> half a unit of the last digit
  kept. A result of magnitude \<open>2 ^ 1024\<close> or more is an infinity.
\<close>

definition signed_double :: "bool \<Rightarrow> nat \<Rightarrow> int \<Rightarrow> pyfloat" where
  "signed_double neg q e =
     (if int (bit_length q) + e > 1024 then (if neg then NegInf else PosInf)
      else Finite (if neg then - int q else int q) e)"

definition round_double :: "int \<Rightarrow> int \<Rightarrow> pyfloat" where
  "round_double m e =
     (let a = nat \<bar>m\<bar>;
          E = max (e + int (bit_length a) - 53) (- 1074)
      in if E \<le> e then signed_double (m < 0) a e
         else (let s = nat (E - e); d = a div 2 ^ s; r = a mod 2 ^ s; h = 2 ^ (s - 1)
               in signed_double (m < 0) (if r > h \<or> (r = h \<and> odd d) then d + 1 else d) E))"

text \<open>
  The conversion of an \<open>int\<close> operand to \<open>float\<close>, which raises \<open>OverflowError\<close> when
  the integer is too large; the product \<open>x * y\<close> of two floats; and \<open>int(x)\<close>, which
  truncates toward zero.
\<close>

definition float_of_int :: "int \<Rightarrow> exn + pyfloat" where
  "float_of_int r =
     (case round_double r 0 of Finite m e \<Rightarrow> Inr (Finite m e) | _ \<Rightarrow> Inl OverflowError)"

fun float_mul :: "pyfloat \<Rightarrow> pyfloat \<Rightarrow> pyfloat" where
  "float_mul (Finite a ea) (Finite b eb) = round_double (a * b) (ea + eb)"
| "float_mul NaN _ = NaN"
| "float_mul _ NaN = NaN"
| "float_mul (Finite a ea) y =
     (if a = 0 then NaN else if (0 < a) = (y = PosInf) then PosInf else NegInf)"
| "float_mul x (Finite b eb) =
     (if b = 0 then NaN else if (0 < b) = (x = PosInf) then PosInf else NegInf)"
| "float_mul x y = (if x = y then PosInf else NegInf)"

definition int_of_float :: "pyfloat \<Rightarrow> exn + int" where
  "int_of_float x =
     (case x of
        Finite m e \<Rightarrow>
          Inr (if 0 \<le> e then m * 2 ^ nat e
               else if 0 \<le> m then m div 2 ^ nat (- e)
               else - ((- m) div 2 ^ nat (- e)))
      | NaN \<Rightarrow> Inl ValueError
      | _ \<Rightarrow> Inl OverflowError)"

text \<open>The literal \<open>0.3\<close>: the double \<open>0x1.3333333333333p-2\<close>.\<close>

definition point_three :: pyfloat where
  "point_three = Finite 5404319552844595 (- 54)"

section \<open>Audio synthesis of the chatterbox gateway\<close>

text \<open>
  The tensors \<open>_generate_wav\<close> handles are the waveforms \<open>MODEL.generate\<close> returns:
  of shape \<open>(1, N)\<close>, with a floating-point dtype, on one device. A tensor is
  modelled by its dtype, its device and the list of its \<open>N\<close> samples. The sample type
  is left open: the code never computes with samples, it only makes zeros.
\<close>

datatype dtype = Float16 | BFloat16 | Float32 | Float64

datatype device = Cpu | Cuda nat | Mps

record 'a tensor =
  dtype :: dtype
  device :: device
  samples :: "'a list"

text \<open>The type promotion of \<open>torch\<close> on floating-point dtypes.\<close>

fun promote :: "dtype \<Rightarrow> dtype \<Rightarrow> dtype" where
  "promote Float64 _ = Float64"
| "promote _ Float64 = Float64"
| "promote Float32 _ = Float32"
| "promote _ Float32 = Float32"
| "promote Float16 Float16 = Float16"
| "promote BFloat16 BFloat16 = BFloat16"
| "promote _ _ = Float32"

text \<open>
  \<open>torch.zeros(1, n, dtype=d)\<close>: \<open>n\<close> zeros on the CPU; a negative size raises.
  \<open>t.to(dev)\<close> moves a tensor. \<open>torch.cat([a, b, c], dim=1)\<close> appends the samples
  of tensors that are on one device and promotes their dtypes; tensors on different
  devices raise.
\<close>

definition torch_zeros :: "int \<Rightarrow> dtype \<Rightarrow> exn + ('a::zero) tensor" where
  "torch_zeros n d =
     (if n < 0 then Inl TorchError
      else Inr \<lparr>dtype = d, device = Cpu, samples = replicate (nat n) 0\<rparr>)"

definition tensor_to :: "'a tensor \<Rightarrow> device \<Rightarrow> 'a tensor" where
  "tensor_to t dev = t\<lparr>device := dev\<rparr>"

definition torch_cat3 :: "'a tensor \<Rightarrow> 'a tensor \<Rightarrow> 'a tensor \<Rightarrow> exn + 'a tensor" where
  "torch_cat3 a b c =
     (if device b = device a \<and> device c = device a
      then Inr \<lparr>dtype = promote (promote (dtype a) (dtype b)) (dtype c), device = device a,
                samples = samples a @ samples b @ samples c\<rparr>
      else Inl TorchError)"

text \<open>
  What \<open>_generate_wav\<close> calls and does not define: \<open>load_model\<close> is the outcome of
  \<open>_load_model()\<close> followed by the \<open>MODEL is None\<close> test, an exception or the value of
  \<open>MODEL_SR\<close> (\<open>None\<close> when the model has no \<open>sr\<close>); \<open>model_generate i chunk params\<close>
  is the outcome of the \<open>i\<close>-th call of \<open>MODEL.generate\<close> in the request, on \<open>chunk\<close>
  with the request's parameters.
\<close>

record ('a, 'p) backend =
  load_model :: "exn + int option"
  model_generate :: "nat \<Rightarrow> pystr \<Rightarrow> 'p \<Rightarrow> exn + 'a tensor"

text \<open>The calls a request makes to the backend, in order.\<close>

datatype call = LoadModel | Generate pystr

text \<open>
  The loop \<open>for chunk in chunks: wavs.append(MODEL.generate(chunk, ...))\<close>, from call
  number \<open>i\<close>; an exception ends it. The result is paired with the calls made.
\<close>

fun generate_all ::
  "('a, 'p) backend \<Rightarrow> 'p \<Rightarrow> nat \<Rightarrow> pystr list \<Rightarrow> call list \<times> (exn + 'a tensor list)" where
  "generate_all b params i [] = ([], Inr [])"
| "generate_all b params i (chunk # chunks) =
     (case model_generate b i chunk params of
        Inl e \<Rightarrow> ([Generate chunk], Inl e)
      | Inr wav \<Rightarrow>
          (case generate_all b params (Suc i) chunks of
             (calls, Inl e) \<Rightarrow> (Generate chunk # calls, Inl e)
           | (calls, Inr wavs) \<Rightarrow> (Generate chunk # calls, Inr (wav # wavs))))"

text \<open>\<open>MODEL_SR or 24000\<close>.\<close>

definition sr_or_default :: "int option \<Rightarrow> int" where
  "sr_or_default model_sr =
     (case model_sr of None \<Rightarrow> 24000 | Some r \<Rightarrow> if r = 0 then 24000 else r)"

text \<open>
  Line 145, \<open>silence_samples = int(0.3 * (MODEL_SR or 24000))\<close>: the rate, an \<open>int\<close>,
  is converted to a double, multiplied by the double \<open>0.3\<close>, and the product truncated.
\<close>

definition silence_samples :: "int option \<Rightarrow> exn + int" where
  "silence_samples model_sr =
     (case float_of_int (sr_or_default model_sr) of
        Inl e \<Rightarrow> Inl e
      | Inr rate \<Rightarrow> int_of_float (float_mul point_three rate))"

text \<open>
  The silence buffer of lines 146 to 148: \<open>n\<close> zeros of the dtype of \<open>wavs[0]\<close>, moved
  to the device of \<open>wavs[0]\<close> unless that is the CPU.
\<close>

definition make_silence :: "int \<Rightarrow> 'a tensor \<Rightarrow> exn + ('a::zero) tensor" where
  "make_silence n wav0 =
     (case torch_zeros n (dtype wav0) of
        Inl e \<Rightarrow> Inl e
      | Inr silence \<Rightarrow>
          Inr (if device wav0 \<noteq> Cpu then tensor_to silence (device wav0) else silence))"

text \<open>The loop \<open>for wav in wavs[1:]: combined = torch.cat([combined, silence, wav], dim=1)\<close>.\<close>

fun cat_loop :: "'a tensor \<Rightarrow> 'a tensor \<Rightarrow> 'a tensor list \<Rightarrow> exn + 'a tensor" where
  "cat_loop combined silence [] = Inr combined"
| "cat_loop combined silence (wav # wavs) =
     (case torch_cat3 combined silence wav of
        Inl e \<Rightarrow> Inl e
      | Inr combined' \<Rightarrow> cat_loop combined' silence wavs)"

text \<open>
  Lines 142 to 153: what \<open>_generate_wav\<close> returns for the list \<open>wavs\<close>. A single
  waveform is returned as it is; otherwise line 145 is evaluated before \<open>wavs[0]\<close> is
  read.
\<close>

definition combine_wavs :: "int option \<Rightarrow> 'a tensor list \<Rightarrow> exn + ('a::zero) tensor" where
  "combine_wavs model_sr wavs =
     (case wavs of
        [wav] \<Rightarrow> Inr wav
      | _ \<Rightarrow>
          (case silence_samples model_sr of
             Inl e \<Rightarrow> Inl e
           | Inr n \<Rightarrow>
               (case wavs of
                  [] \<Rightarrow> Inl IndexError
                | wav0 # rest \<Rightarrow>
                    (case make_silence n wav0 of
                       Inl e \<Rightarrow> Inl e
                     | Inr silence \<Rightarrow> cat_loop wav0 silence rest))))"

definition generate_wav ::
  "('a::zero, 'p) backend \<Rightarrow> pystr \<Rightarrow> 'p \<Rightarrow> int \<Rightarrow> call list \<times> (exn + 'a tensor)" where
  "generate_wav b text params chunk_size =
     (case load_model b of
        Inl e \<Rightarrow> ([LoadModel], Inl e)
      | Inr model_sr \<Rightarrow>
          (case generate_all b params 0 (split_text text chunk_size) of
             (calls, Inl e) \<Rightarrow> (LoadModel # calls, Inl e)
           | (calls, Inr wavs) \<Rightarrow> (LoadModel # calls, combine_wavs model_sr wavs)))"

text \<open>
  The concatenation as the specification writes it:
  \<open>w1 @ s @ w2 @ s @ ... @ s @ wn\<close>.
\<close>

fun interleaved :: "'a list \<Rightarrow> 'a list list \<Rightarrow> 'a list" where
  "interleaved s [] = []"
| "interleaved s [w] = w"
| "interleaved s (w # ws) = w @ s @ interleaved s ws"

text \<open>
  A backend for the examples: the model is loaded with a sample rate of 24000, and
  every chunk is synthesised as one sample of value 1 for each of its characters.
\<close>

definition demo_backend :: "(int, 'p) backend" where
  "demo_backend =
     \<lparr>load_model = Inr (Some 24000),
      model_generate = (\<lambda>i chunk params.
         Inr \<lparr>dtype = Float32, device = Cpu, samples = replicate (length chunk) 1\<rparr>)\<rparr>"

section \<open>The request handlers\<close>

subsection \<open>JSON values as Python sees them\<close>

text \<open>
  What \<open>json.loads\<close> returns: \<open>None\<close>, a \<open>bool\<close>, an \<open>int\<close>, a \<open>float\<close>, a
  \<open>str\<close>, a \<open>list\<close> or a \<open>dict\<close>; \<open>json.loads\<close> also reads the literals
  \<open>Infinity\<close>, \<open>-Infinity\<close> and \<open>NaN\<close>. A \<open>dict\<close> is the list of its items, the keys
  distinct.
\<close>

datatype json =
  JNull | JBool bool | JInt int | JFloat pyfloat | JStr pystr | JArr "json list"
  | JObj "(pystr \<times> json) list"

text \<open>The truth value Python gives a value in \<open>if\<close>, \<open>not\<close> and \<open>or\<close>.\<close>

fun truthy :: "json \<Rightarrow> bool" where
  "truthy JNull = False"
| "truthy (JBool b) = b"
| "truthy (JInt n) = (n \<noteq> 0)"
| "truthy (JFloat (Finite m e)) = (m \<noteq> 0)"
| "truthy (JFloat _) = True"
| "truthy (JStr s) = (s \<noteq> [])"
| "truthy (JArr xs) = (xs \<noteq> [])"
| "truthy (JObj kvs) = (kvs \<noteq> [])"

text \<open>\<open>a or b\<close>, and \<open>d.get(key)\<close> on the items of a \<open>dict\<close>.\<close>

definition py_or :: "json \<Rightarrow> json \<Rightarrow> json" where
  "py_or a b = (if truthy a then a else b)"

definition dict_get :: "(pystr \<times> json) list \<Rightarrow> pystr \<Rightarrow> json" where
  "dict_get kvs key = (case map_of kvs key of None \<Rightarrow> JNull | Some v \<Rightarrow> v)"

text \<open>\<open>needle in haystack\<close> on strings.\<close>

fun contains :: "'a list \<Rightarrow> 'a list \<Rightarrow> bool" where
  "contains needle [] = (needle = [])"
| "contains needle (c # cs) =
     (take (length needle) (c # cs) = needle \<or> contains needle cs)"

subsection \<open>Collaborators, requests and responses\<close>

text \<open>
  The library calls the handlers make on request data are parameters of the model,
  each giving its result or the exception it raises:
  \<open>decode_replace raw\<close> is \<open>raw.decode("utf-8", errors="replace")\<close>;
  \<open>json_loads raw\<close> is \<open>json.loads(raw.decode("utf-8"))\<close>;
  \<open>str_of v\<close> is \<open>str(v)\<close> for a value \<open>v\<close> that is not a string;
  \<open>int_of v\<close> and \<open>float_of v\<close> are \<open>int(v)\<close> and \<open>float(v)\<close>.
\<close>

record library =
  decode_replace :: "string \<Rightarrow> pystr"
  json_loads :: "string \<Rightarrow> exn + json"
  str_of :: "json \<Rightarrow> pystr"
  int_of :: "json \<Rightarrow> exn + int"
  float_of :: "json \<Rightarrow> exn + pyfloat"

text \<open>\<open>str(v)\<close>: a string is itself.\<close>

definition py_str :: "library \<Rightarrow> json \<Rightarrow> pystr" where
  "py_str lib v = (case v of JStr s \<Rightarrow> s | _ \<Rightarrow> str_of lib v)"

text \<open>
  A request as \<open>do_POST\<close> meets it: the path, the outcome of
  \<open>int(self.headers.get("content-length") or "0")\<close>, the value of
  \<open>(self.headers.get("content-type") or "").lower()\<close>, and the bytes \<open>self.rfile\<close>
  delivers. \<open>read_body\<close> is \<open>self.rfile.read(length) if length > 0 else b""\<close>.
\<close>

record request =
  req_path :: pystr
  req_content_length :: "exn + int"
  req_content_type :: pystr
  req_rfile :: string

definition read_body :: "request \<Rightarrow> int \<Rightarrow> string" where
  "read_body req len = (if len > 0 then take (nat len) (req_rfile req) else [])"

text \<open>
  What \<open>_send\<close> writes. A body is a fixed text, a text ending in the message of an
  exception (\<open>f"{prefix}{e}\\n"\<close>), the \<open>json.dumps\<close> of a value, that of an error
  with the message of an exception (\<open>{"error": f"{prefix}{e}"}\<close>), or the bytes of a
  WAV file. An exception that leaves \<open>do_POST\<close> sends nothing: \<open>Unhandled\<close>.
\<close>

datatype body =
  Text pystr | TextExn pystr exn | JsonDump json | JsonError pystr exn | Audio string

record response =
  status :: int
  body :: body
  ctype :: pystr

datatype outcome = Sent response | Unhandled exn

definition text_plain :: pystr where
  "text_plain = pystr_of ''text/plain; charset=utf-8''"

definition application_json :: pystr where
  "application_json = pystr_of ''application/json; charset=utf-8''"

definition send_text :: "int \<Rightarrow> body \<Rightarrow> outcome" where
  "send_text st b = Sent \<lparr>status = st, body = b, ctype = text_plain\<rparr>"

definition send_json :: "int \<Rightarrow> body \<Rightarrow> outcome" where
  "send_json st b = Sent \<lparr>status = st, body = b, ctype = application_json\<rparr>"

subsection \<open>The chatterbox gateway: \<open>POST /tts\<close>\<close>

text \<open>
  The defaults of lines 186 to 189, each the outcome of \<open>float\<close> or \<open>int\<close> on an
  environment variable, read anew for every request.
\<close>

record chatterbox_env =
  env_exaggeration :: "exn + pyfloat"
  env_temperature :: "exn + pyfloat"
  env_cfg_weight :: "exn + pyfloat"
  env_chunk_size :: "exn + int"

text \<open>The arguments \<open>_generate_wav\<close> passes on to \<open>MODEL.generate\<close> with each chunk.\<close>

record gen_params =
  audio_prompt_path :: json
  exaggeration :: pyfloat
  temperature :: pyfloat
  cfg_weight :: pyfloat

text \<open>The variables of \<open>do_POST\<close> when line 210 is reached.\<close>

record tts_job =
  job_text :: pystr
  job_params :: gen_params
  job_chunk_size :: int

text \<open>
  \<open>x = conv(payload.get(key))\<close> under \<open>if payload.get(key) is not None\<close>: the default
  stays when the key is absent or \<open>null\<close>.
\<close>

definition override :: "(json \<Rightarrow> exn + 'a) \<Rightarrow> (pystr \<times> json) list \<Rightarrow> pystr \<Rightarrow> 'a \<Rightarrow> exn + 'a" where
  "override conv kvs key dflt =
     (if dict_get kvs key \<noteq> JNull then conv (dict_get kvs key) else Inr dflt)"

text \<open>
  The body of the \<open>try\<close> of lines 193 to 203 once the payload is parsed; any
  exception is caught by line 204.
\<close>

definition chatterbox_payload :: "library \<Rightarrow> tts_job \<Rightarrow> json \<Rightarrow> exn + tts_job" where
  "chatterbox_payload lib dflt payload =
     (case payload of
        JObj kvs \<Rightarrow>
          (let text = py_str lib
                 (py_or (py_or (dict_get kvs (pystr_of ''text'')) (dict_get kvs (pystr_of ''input'')))
                    (JStr []));
               prompt = py_or (dict_get kvs (pystr_of ''audio_prompt_path''))
                          (dict_get kvs (pystr_of ''voice''))
           in case override (float_of lib) kvs (pystr_of ''exaggeration'')
                     (exaggeration (job_params dflt)) of
                Inl e \<Rightarrow> Inl e
              | Inr ex \<Rightarrow>
             (case override (float_of lib) kvs (pystr_of ''temperature'')
                     (temperature (job_params dflt)) of
                Inl e \<Rightarrow> Inl e
              | Inr te \<Rightarrow>
             (case override (float_of lib) kvs (pystr_of ''cfg_weight'')
                     (cfg_weight (job_params dflt)) of
                Inl e \<Rightarrow> Inl e
              | Inr cf \<Rightarrow>
             (case override (int_of lib) kvs (pystr_of ''chunk_size'') (job_chunk_size dflt) of
                Inl e \<Rightarrow> Inl e
              | Inr cs \<Rightarrow>
                  Inr \<lparr>job_text = text,
                       job_params = \<lparr>audio_prompt_path = prompt, exaggeration = ex,
                                     temperature = te, cfg_weight = cf\<rparr>,
                       job_chunk_size = cs\<rparr>))))
      | _ \<Rightarrow> Inl AttributeError)"

text \<open>
  Lines 176 to 208: the response sent before the text is looked at, or the job the
  request resolves to.
\<close>

definition chatterbox_resolve :: "library \<Rightarrow> chatterbox_env \<Rightarrow> request \<Rightarrow> outcome + tts_job" where
  "chatterbox_resolve lib env req =
     (if req_path req \<noteq> pystr_of ''/tts'' then Inl (send_text 404 (Text (pystr_of ''not found\<newline>'')))
      else case req_content_length req of
        Inl e \<Rightarrow> Inl (Unhandled e)
      | Inr len \<Rightarrow>
      (case env_exaggeration env of Inl e \<Rightarrow> Inl (Unhandled e) | Inr ex \<Rightarrow>
      (case env_temperature env of Inl e \<Rightarrow> Inl (Unhandled e) | Inr te \<Rightarrow>
      (case env_cfg_weight env of Inl e \<Rightarrow> Inl (Unhandled e) | Inr cf \<Rightarrow>
      (case env_chunk_size env of Inl e \<Rightarrow> Inl (Unhandled e) | Inr cs \<Rightarrow>
        (let raw = read_body req len;
             dflt = \<lparr>job_text = [],
                     job_params = \<lparr>audio_prompt_path = JNull, exaggeration = ex,
                                   temperature = te, cfg_weight = cf\<rparr>,
                     job_chunk_size = cs\<rparr>
         in if contains (pystr_of ''application/json'') (req_content_type req)
            then (case (if raw \<noteq> [] then json_loads lib raw else Inr (JObj [])) of
                    Inl e \<Rightarrow> Inl (send_text 400 (TextExn (pystr_of ''invalid json: '') e))
                  | Inr payload \<Rightarrow>
                      (case chatterbox_payload lib dflt payload of
                         Inl e \<Rightarrow> Inl (send_text 400 (TextExn (pystr_of ''invalid json: '') e))
                       | Inr job \<Rightarrow> Inr job))
            else Inr (dflt\<lparr>job_text := decode_replace lib raw\<rparr>)))))))"

text \<open>
  Lines 210 to 237. \<open>send_wav wav sr\<close> stands for lines 217 to 237, which write the
  waveform \<open>_generate_wav\<close> returned to a WAV file at the model's sample rate and send
  it; the model does not look into them. The outcome is paired with the calls made
  to the backend.
\<close>

definition loaded_sr :: "('a, 'p) backend \<Rightarrow> int option" where
  "loaded_sr b = (case load_model b of Inl e \<Rightarrow> None | Inr r \<Rightarrow> r)"

definition chatterbox_serve ::
  "('a::zero, gen_params) backend \<Rightarrow> ('a tensor \<Rightarrow> int \<Rightarrow> outcome) \<Rightarrow> tts_job \<Rightarrow>
   outcome \<times> call list" where
  "chatterbox_serve b send_wav job =
     (let text = strip (job_text job)
      in if text = [] then (send_text 400 (Text (pystr_of ''missing text\<newline>'')), [])
         else (case generate_wav b text (job_params job) (job_chunk_size job) of
                 (calls, Inl e) \<Rightarrow> (send_text 500 (TextExn (pystr_of ''tts failed: '') e), calls)
               | (calls, Inr wav) \<Rightarrow> (send_wav wav (sr_or_default (loaded_sr b)), calls)))"

definition chatterbox_do_POST ::
  "library \<Rightarrow> chatterbox_env \<Rightarrow> ('a::zero, gen_params) backend \<Rightarrow>
   ('a tensor \<Rightarrow> int \<Rightarrow> outcome) \<Rightarrow> request \<Rightarrow> outcome \<times> call list" where
  "chatterbox_do_POST lib env b send_wav req =
     (case chatterbox_resolve lib env req of
        Inl out \<Rightarrow> (out, [])
      | Inr job \<Rightarrow> chatterbox_serve b send_wav job)"

subsection \<open>The kokomo gateway: \<open>POST /tts\<close>\<close>

text \<open>
  The server holds the model named at start-up and the generator command
  \<open>_pick_generator\<close> found, if any.
\<close>

record kokomo_server =
  srv_model :: pystr
  srv_generator :: "pystr list option"

text \<open>Lines 52 to 72: a response, or the text and the model the request resolves to.\<close>

definition kokomo_resolve :: "library \<Rightarrow> kokomo_server \<Rightarrow> request \<Rightarrow> outcome + pystr \<times> pystr" where
  "kokomo_resolve lib srv req =
     (if req_path req \<noteq> pystr_of ''/tts'' then Inl (send_text 404 (Text (pystr_of ''not found\<newline>'')))
      else case req_content_length req of
        Inl e \<Rightarrow> Inl (Unhandled e)
      | Inr len \<Rightarrow>
        (let raw = read_body req len
         in if contains (pystr_of ''application/json'') (req_content_type req)
            then (case (if raw \<noteq> [] then json_loads lib raw else Inr (JObj [])) of
                    Inl e \<Rightarrow> Inl (send_text 400 (TextExn (pystr_of ''invalid json: '') e))
                  | Inr (JObj kvs) \<Rightarrow>
                      Inr (py_str lib
                             (py_or (py_or (dict_get kvs (pystr_of ''text''))
                                       (dict_get kvs (pystr_of ''input'')))
                                (JStr [])),
                           py_str lib (py_or (dict_get kvs (pystr_of ''model'')) (JStr (srv_model srv))))
                  | Inr _ \<Rightarrow> Inl (send_text 400 (TextExn (pystr_of ''invalid json: '') AttributeError)))
            else Inr (decode_replace lib raw, srv_model srv)))"

text \<open>
  The command line of lines 91 to 102, for the generator, the model, the text and
  the temporary directory of the request.
\<close>

definition kokomo_cmd :: "pystr list \<Rightarrow> pystr \<Rightarrow> pystr \<Rightarrow> pystr \<Rightarrow> pystr list" where
  "kokomo_cmd generator model text tmpdir =
     generator @
     [pystr_of ''--model'', model, pystr_of ''--text'', text,
      pystr_of ''--file_prefix'', tmpdir @ pystr_of ''/out'',
      pystr_of ''--audio_format'', pystr_of ''wav'', pystr_of ''--join_audio'']"

text \<open>
  Lines 74 to 187. \<open>run cmd\<close> stands for lines 103 to 187: running the command with
  \<open>subprocess.run\<close> and sending the WAV file it leaves, or the diagnostic; the model
  does not look into them. The outcome is paired with the command lines run.
\<close>

definition kokomo_serve ::
  "kokomo_server \<Rightarrow> pystr \<Rightarrow> (pystr list \<Rightarrow> outcome) \<Rightarrow> pystr \<times> pystr \<Rightarrow>
   outcome \<times> pystr list list" where
  "kokomo_serve srv tmpdir run job =
     (let text = strip (fst job); model = snd job
      in if text = [] then (send_text 400 (Text (pystr_of ''missing text\<newline>'')), [])
         else (case srv_generator srv of
                 None \<Rightarrow>
                   (send_text 500 (Text (pystr_of
                      ''mlx-audio generator not found. Install mlx-audio in your venv.\<newline>'')), [])
               | Some generator \<Rightarrow>
                   if generator = []
                   then (send_text 500 (Text (pystr_of
                      ''mlx-audio generator not found. Install mlx-audio in your venv.\<newline>'')), [])
                   else (run (kokomo_cmd generator model text tmpdir),
                         [kokomo_cmd generator model text tmpdir])))"

definition kokomo_do_POST ::
  "library \<Rightarrow> kokomo_server \<Rightarrow> pystr \<Rightarrow> (pystr list \<Rightarrow> outcome) \<Rightarrow> request \<Rightarrow>
   outcome \<times> pystr list list" where
  "kokomo_do_POST lib srv tmpdir run req =
     (case kokomo_resolve lib srv req of
        Inl out \<Rightarrow> (out, [])
      | Inr job \<Rightarrow> kokomo_serve srv tmpdir run job)"

subsection \<open>The chat gateways: \<open>POST /v1/chat/completions\<close>\<close>

text \<open>
  Lines 100 to 128 of the mlx server and lines 106 to 134 of the vlm server are the
  same but for the name of the environment variable in the error text, \<open>var\<close> here.
  They send a response, or pass the payload and its messages on.
\<close>

definition chat_paths :: "pystr list" where
  "chat_paths = [pystr_of ''/v1/chat/completions'', pystr_of ''/chat/completions'']"

definition wrong_model :: "pystr \<Rightarrow> pystr \<Rightarrow> json" where
  "wrong_model var bound =
     JObj [(pystr_of ''error'',
            JStr (pystr_of ''this server is started with a single model; restart with '' @ var @
                  pystr_of '' to change'')),
           (pystr_of ''model'', JStr bound)]"

definition chat_validate ::
  "pystr \<Rightarrow> library \<Rightarrow> pystr \<Rightarrow> request \<Rightarrow> outcome + json \<times> json list" where
  "chat_validate var lib bound req =
     (if req_path req \<notin> set chat_paths
      then Inl (send_json 404 (JsonDump (JObj [(pystr_of ''error'', JStr (pystr_of ''not found''))])))
      else case req_content_length req of
        Inl e \<Rightarrow> Inl (Unhandled e)
      | Inr len \<Rightarrow>
        (case (if len > 0 then json_loads lib (take (nat len) (req_rfile req)) else Inr (JObj [])) of
           Inl e \<Rightarrow> Inl (send_json 400 (JsonError (pystr_of ''invalid json: '') e))
         | Inr (JObj kvs) \<Rightarrow>
             (case py_or (dict_get kvs (pystr_of ''messages'')) (JArr []) of
                JArr messages \<Rightarrow>
                  if messages = []
                  then Inl (send_json 400
                         (JsonDump (JObj [(pystr_of ''error'', JStr (pystr_of ''missing messages[]''))])))
                  else if py_str lib (py_or (dict_get kvs (pystr_of ''model'')) (JStr bound)) \<noteq> bound
                  then Inl (send_json 400 (JsonDump (wrong_model var bound)))
                  else Inr (JObj kvs, messages)
              | _ \<Rightarrow> Inl (send_json 400
                         (JsonDump (JObj [(pystr_of ''error'', JStr (pystr_of ''missing messages[]''))]))))
         | Inr _ \<Rightarrow> Inl (Unhandled AttributeError)))"

text \<open>
  \<open>reply payload messages\<close> stands for the rest of \<open>do_POST\<close> (lines 130 to 156 of the
  mlx server, 136 to 194 of the vlm server): the sampling parameters, the generation
  on the loaded model and the response, paired with the generation calls made. The
  values it computes are not modelled; the order of its steps in the mlx server, and
  the lock they take, are the subject of the next subsection.
\<close>

definition mlx_do_POST ::
  "library \<Rightarrow> pystr \<Rightarrow> (json \<Rightarrow> json list \<Rightarrow> outcome \<times> 'c list) \<Rightarrow> request \<Rightarrow> outcome \<times> 'c list" where
  "mlx_do_POST lib bound reply req =
     (case chat_validate (pystr_of ''MLX_MODEL'') lib bound req of
        Inl out \<Rightarrow> (out, [])
      | Inr (payload, messages) \<Rightarrow> reply payload messages)"

definition vlm_do_POST ::
  "library \<Rightarrow> pystr \<Rightarrow> (json \<Rightarrow> json list \<Rightarrow> outcome \<times> 'c list) \<Rightarrow> request \<Rightarrow> outcome \<times> 'c list" where
  "vlm_do_POST lib bound reply req =
     (case chat_validate (pystr_of ''VLM_MODEL'') lib bound req of
        Inl out \<Rightarrow> (out, [])
      | Inr (payload, messages) \<Rightarrow> reply payload messages)"

subsection \<open>The mlx gateway under concurrent requests\<close>

text \<open>
  \<open>ThreadingHTTPServer\<close> runs \<open>do_POST\<close> on a thread of its own for every request, and
  the threads share the server's model, tokenizer and lock. A request is at one of
  these places of \<open>do_POST\<close>:
  \<^item> \<open>Received\<close>: lines 100 to 128, the validation, are to run;
  \<^item> \<open>Parameters\<close>: lines 130 to 132, the sampling parameters, are to run;
  \<^item> \<open>Prompt\<close>: line 135, \<open>_build_prompt\<close>, is to run;
  \<^item> \<open>Acquire\<close>: line 136, \<open>with self.server.lock\<close>, is to take the lock;
  \<^item> \<open>ImportGenerate\<close>: inside the \<open>with\<close> block, \<open>_generate\<close> is entered and its line
    44, the import, is to run;
  \<^item> \<open>GenerateTemp\<close>: inside the \<open>with\<close> block, the call of \<open>generate\<close> with \<open>temp\<close>
    (lines 49 to 56) is running;
  \<^item> \<open>GenerateTemperature\<close>: inside the \<open>with\<close> block, the call of \<open>generate\<close> with
    \<open>temperature\<close> (lines 58 to 65) is running, after the first raised \<open>TypeError\<close>;
  \<^item> \<open>Respond\<close>: lines 142 to 156, the response, are to run;
  \<^item> \<open>Done\<close>: \<open>do_POST\<close> is left, with a response sent or by an exception.
\<close>

datatype mlx_pc =
  Received | Parameters | Prompt | Acquire | ImportGenerate | GenerateTemp | GenerateTemperature
  | Respond | Done

text \<open>How the code a request runs in one step ends.\<close>

datatype call_result = Returns | RaisesTypeError | Raises

text \<open>
  The state the threads share: who holds \<open>self.server.lock\<close>, and where every request
  is. \<open>threading.Lock\<close> is held by at most one thread; \<open>acquire\<close> waits while it is
  held, and leaving the \<open>with\<close> block, normally or by an exception, releases it.
\<close>

record mlx_threads =
  lock_holder :: "nat option"
  pc_of :: "nat \<Rightarrow> mlx_pc"

definition generating :: "mlx_pc \<Rightarrow> bool" where
  "generating p \<longleftrightarrow> p = GenerateTemp \<or> p = GenerateTemperature"

definition in_with_block :: "mlx_pc \<Rightarrow> bool" where
  "in_with_block p \<longleftrightarrow> p = ImportGenerate \<or> generating p"

definition move_to :: "mlx_threads \<Rightarrow> nat \<Rightarrow> mlx_pc \<Rightarrow> mlx_threads" where
  "move_to s i p = s\<lparr>pc_of := (pc_of s)(i := p)\<rparr>"

definition unlock_to :: "mlx_threads \<Rightarrow> nat \<Rightarrow> mlx_pc \<Rightarrow> mlx_threads" where
  "unlock_to s i p = s\<lparr>lock_holder := None, pc_of := (pc_of s)(i := p)\<rparr>"

text \<open>
  One step of request \<open>i\<close>, whose code ends as \<open>res\<close> says; \<open>None\<close> when the request
  cannot move: it waits for the lock, or it is done. The validation is the function
  \<open>chat_validate\<close> of the request. An exception in lines 130 to 132 leaves \<open>do_POST\<close>;
  one in lines 135 to 137 is caught by line 138, after the \<open>with\<close> block has released
  the lock when it was raised inside; only a \<open>TypeError\<close> of the first \<open>generate\<close> call
  is caught inside \<open>_generate\<close>, which then makes the second call.
\<close>

definition mlx_step ::
  "library \<Rightarrow> pystr \<Rightarrow> (nat \<Rightarrow> request) \<Rightarrow> mlx_threads \<Rightarrow> nat \<Rightarrow> call_result \<Rightarrow>
   mlx_threads option" where
  "mlx_step lib bound reqs s i res =
     (case pc_of s i of
        Received \<Rightarrow>
          (case chat_validate (pystr_of ''MLX_MODEL'') lib bound (reqs i) of
             Inl out \<Rightarrow> Some (move_to s i Done)
           | Inr ok \<Rightarrow> Some (move_to s i Parameters))
      | Parameters \<Rightarrow> Some (move_to s i (if res = Returns then Prompt else Done))
      | Prompt \<Rightarrow> Some (move_to s i (if res = Returns then Acquire else Done))
      | Acquire \<Rightarrow>
          (if lock_holder s = None
           then Some (s\<lparr>lock_holder := Some i, pc_of := (pc_of s)(i := ImportGenerate)\<rparr>)
           else None)
      | ImportGenerate \<Rightarrow>
          Some (if res = Returns then move_to s i GenerateTemp else unlock_to s i Done)
      | GenerateTemp \<Rightarrow>
          Some (case res of
                  Returns \<Rightarrow> unlock_to s i Respond
                | RaisesTypeError \<Rightarrow> move_to s i GenerateTemperature
                | Raises \<Rightarrow> unlock_to s i Done)
      | GenerateTemperature \<Rightarrow>
          Some (unlock_to s i (if res = Returns then Respond else Done))
      | Respond \<Rightarrow> Some (move_to s i Done)
      | Done \<Rightarrow> None)"

text \<open>
  An interleaving of the requests: a schedule names, step by step, the request that
  moves and how its code ends. At the start the lock is free and every request is
  received.
\<close>

fun mlx_run ::
  "library \<Rightarrow> pystr \<Rightarrow> (nat \<Rightarrow> request) \<Rightarrow> mlx_threads \<Rightarrow> (nat \<times> call_result) list \<Rightarrow>
   mlx_threads option" where
  "mlx_run lib bound reqs s [] = Some s"
| "mlx_run lib bound reqs s ((i, res) # schedule) =
     (case mlx_step lib bound reqs s i res of
        None \<Rightarrow> None
      | Some s' \<Rightarrow> mlx_run lib bound reqs s' schedule)"

definition mlx_started :: mlx_threads where
  "mlx_started = \<lparr>lock_holder = None, pc_of = (\<lambda>i. Received)\<rparr>"

text \<open>The lock is held by every request inside the \<open>with\<close> block.\<close>

definition lock_kept :: "mlx_threads \<Rightarrow> bool" where
  "lock_kept s \<longleftrightarrow> (\<forall>i. in_with_block (pc_of s i) \<longrightarrow> lock_holder s = Some i)"

subsection \<open>Example data\<close>

text \<open>
  Three request bodies, \<open>{"text":""}\<close>, \<open>{"text":"hi","model":"other-model"}\<close> and
  \<open>{"model":"other-model","messages":[{"role":"user","content":"hi"}]}\<close>, and a
  library that parses them; an environment with the defaults of the chatterbox
  server; a kokomo server bound to \<open>my-model\<close> whose generator is found; a WAV writer,
  a generator run and a chat reply that succeed.
\<close>

definition quoted :: "string \<Rightarrow> string" where
  "quoted s = [CHR 0x22] @ s @ [CHR 0x22]"

definition tts_empty_body :: string where
  "tts_empty_body = ''{'' @ quoted ''text'' @ '':'' @ quoted [] @ ''}''"

definition tts_other_body :: string where
  "tts_other_body =
     ''{'' @ quoted ''text'' @ '':'' @ quoted ''hi'' @ '','' @
     quoted ''model'' @ '':'' @ quoted ''other-model'' @ ''}''"

definition chat_other_body :: string where
  "chat_other_body =
     ''{'' @ quoted ''model'' @ '':'' @ quoted ''other-model'' @ '','' @
     quoted ''messages'' @ '':[{'' @ quoted ''role'' @ '':'' @ quoted ''user'' @ '','' @
     quoted ''content'' @ '':'' @ quoted ''hi'' @ ''}]}''"

definition demo_library :: library where
  "demo_library =
     \<lparr>decode_replace = pystr_of,
      json_loads = (\<lambda>raw.
         if raw = tts_empty_body then Inr (JObj [(pystr_of ''text'', JStr [])])
         else if raw = tts_other_body
         then Inr (JObj [(pystr_of ''text'', JStr (pystr_of ''hi'')),
                         (pystr_of ''model'', JStr (pystr_of ''other-model''))])
         else if raw = chat_other_body
         then Inr (JObj [(pystr_of ''model'', JStr (pystr_of ''other-model'')),
                         (pystr_of ''messages'',
                          JArr [JObj [(pystr_of ''role'', JStr (pystr_of ''user'')),
                                      (pystr_of ''content'', JStr (pystr_of ''hi''))]])])
         else Inl (Raised (pystr_of ''Expecting value''))),
      str_of = (\<lambda>v. pystr_of ''None''),
      int_of = (\<lambda>v. case v of JInt n \<Rightarrow> Inr n | _ \<Rightarrow> Inl (Raised (pystr_of ''invalid literal''))),
      float_of = (\<lambda>v. case v of JFloat f \<Rightarrow> Inr f | JInt n \<Rightarrow> Inr (Finite n 0)
                  | _ \<Rightarrow> Inl (Raised (pystr_of ''could not convert'')))\<rparr>"

definition demo_env :: chatterbox_env where
  "demo_env =
     \<lparr>env_exaggeration = Inr (Finite 1 0), env_temperature = Inr (Finite 3152519739159347 (- 52)),
      env_cfg_weight = Inr (Finite 1 (- 1)), env_chunk_size = Inr 250\<rparr>"

definition demo_request :: "pystr \<Rightarrow> pystr \<Rightarrow> string \<Rightarrow> request" where
  "demo_request p ct raw =
     \<lparr>req_path = p, req_content_length = Inr (int (length raw)), req_content_type = ct,
      req_rfile = raw\<rparr>"

definition demo_send_wav :: "int tensor \<Rightarrow> int \<Rightarrow> outcome" where
  "demo_send_wav wav sr =
     Sent \<lparr>status = 200, body = Audio ''RIFF'', ctype = pystr_of ''audio/wav''\<rparr>"

definition demo_run :: "pystr list \<Rightarrow> outcome" where
  "demo_run cmd = Sent \<lparr>status = 200, body = Audio ''RIFF'', ctype = pystr_of ''audio/wav''\<rparr>"

definition demo_kokomo :: kokomo_server where
  "demo_kokomo =
     \<lparr>srv_model = pystr_of ''my-model'',
      srv_generator = Some [pystr_of ''mlx_audio.tts.generate'']\<rparr>"

definition demo_reply :: "json \<Rightarrow> json list \<Rightarrow> outcome \<times> unit list" where
  "demo_reply payload messages =
     (send_json 200 (JsonDump (JObj [(pystr_of ''object'', JStr (pystr_of ''chat.completion''))])),
      [()])"

definition demo_chat_requests :: "nat \<Rightarrow> request" where
  "demo_chat_requests i =
     demo_request (pystr_of ''/v1/chat/completions'') (pystr_of ''application/json'')
       chat_other_body"

section \<open>Properties of the string operations\<close>

lemma split_ws_space:
  "isspace sp \<Longrightarrow> split_ws w (a @ sp # b) = split_ws w a @ split_ws [] b"
  by (induction a arbitrary: w) auto

lemma split_ws_dropWhile: "split_ws [] (dropWhile isspace s) = split_ws [] s"
  by (induction s) auto

lemma split_ws_snoc_space: "isspace sp \<Longrightarrow> split_ws w (a @ [sp]) = split_ws w a"
  using split_ws_space [of sp w a "[]"] by simp

lemma split_ws_rev_dropWhile:
  "split_ws w (rev (dropWhile isspace (rev s))) = split_ws w s"
proof (induction s rule: rev_induct)
  case Nil
  show ?case by simp
next
  case (snoc x xs)
  show ?case
  proof (cases "isspace x")
    case True
    with snoc show ?thesis by (simp add: split_ws_snoc_space)
  next
    case False
    then show ?thesis by simp
  qed
qed

lemma py_split_strip: "py_split (strip s) = py_split s"
  by (simp add: py_split_def strip_def split_ws_rev_dropWhile split_ws_dropWhile)

lemma length_strip: "length (strip s) \<le> length s"
proof -
  have "length (strip s) \<le> length (dropWhile isspace s)"
    unfolding strip_def using length_dropWhile_le [of isspace "rev (dropWhile isspace s)"] by simp
  also have "\<dots> \<le> length s" by (rule length_dropWhile_le)
  finally show ?thesis .
qed

lemma split_ws_words:
  "\<forall>c\<in>set w. \<not> isspace c \<Longrightarrow> x \<in> set (split_ws w s) \<Longrightarrow> is_word x"
proof (induction s arbitrary: w)
  case Nil
  then show ?case by (auto simp: is_word_def split: if_splits)
next
  case (Cons a s)
  show ?case
  proof (cases "isspace a")
    case True
    with Cons.prems Cons.IH [of "[]"] show ?thesis
      by (auto simp: is_word_def split: if_splits)
  next
    case False
    with Cons.prems Cons.IH [of "w @ [a]"] show ?thesis by auto
  qed
qed

lemma py_split_words: "x \<in> set (py_split s) \<Longrightarrow> is_word x"
  using split_ws_words [of "[]" x s] by (simp add: py_split_def)

lemma split_ws_nospace:
  "\<forall>c\<in>set s. \<not> isspace c \<Longrightarrow> split_ws w s = (if w @ s = [] then [] else [w @ s])"
  by (induction s arbitrary: w) auto

lemma py_split_word: "is_word w \<Longrightarrow> py_split w = [w]"
  by (simp add: py_split_def is_word_def split_ws_nospace)

lemma strip_word: "is_word w \<Longrightarrow> strip w = w"
proof -
  assume w: "is_word w"
  then have 1: "dropWhile isspace w = w"
    by (cases w) (auto simp: is_word_def)
  from w have "rev w \<noteq> [] \<and> \<not> isspace (hd (rev w))"
    by (cases w rule: rev_cases) (auto simp: is_word_def)
  then have "dropWhile isspace (rev w) = rev w"
    by (cases "rev w") auto
  with 1 show ?thesis by (simp add: strip_def)
qed

lemma split_ws_length:
  "x \<in> set (split_ws w s) \<Longrightarrow> length x \<le> length w + length s"
  by (induction s arbitrary: w) (fastforce split: if_splits)+

lemma py_split_length: "x \<in> set (py_split s) \<Longrightarrow> length x \<le> length s"
  using split_ws_length [of x "[]" s] by (simp add: py_split_def)

lemma py_split_blank: "strip s = [] \<Longrightarrow> py_split s = []"
  using py_split_strip [of s] by (simp add: py_split_def)

lemma resplit_words:
  "concat (map py_split (resplit_go X cur s)) = py_split (cur @ s)"
proof (induction X cur s rule: resplit_go.induct)
  case (1 X cur)
  show ?case by simp
next
  case (2 X cur c cs)
  show ?case
  proof (cases "X c \<and> cs \<noteq> [] \<and> isspace (hd cs)")
    case True
    then obtain sp cs' where cs: "cs = sp # cs'" and sp: "isspace sp"
      by (cases cs) auto
    have "py_split (cur @ c # cs) = py_split (cur @ [c]) @ py_split cs'"
      using split_ws_space [OF sp, of "[]" "cur @ [c]" cs'] by (simp add: py_split_def cs)
    moreover have "py_split (dropWhile isspace cs) = py_split cs'"
      using split_ws_dropWhile [of cs] sp by (simp add: py_split_def cs)
    ultimately show ?thesis using True 2 by simp
  next
    case False
    with 2 show ?thesis by auto
  qed
qed

section \<open>Invariants of the chunker's loops\<close>

lemma isspace_SPACE: "isspace SPACE"
  by (simp add: isspace_def SPACE_def)

lemma py_split_Nil: "py_split [] = []"
  by (simp add: py_split_def)

lemma py_split_join: "py_split (a @ SPACE # b) = py_split a @ py_split b"
  using split_ws_space [OF isspace_SPACE, of "[]" a b] by (simp add: py_split_def)

lemma chunk_words_flush: "chunk_words (flush chunks x) = chunk_words chunks @ py_split x"
  by (simp add: chunk_words_def flush_def py_split_strip py_split_Nil)

lemma word_loop_words:
  "\<forall>w\<in>set ws. is_word w \<Longrightarrow> word_loop m chunks wc ws = (chunks', wc') \<Longrightarrow>
   chunk_words chunks' @ py_split wc' = chunk_words chunks @ py_split wc @ ws"
proof (induction ws arbitrary: chunks wc)
  case Nil
  then show ?case by simp
next
  case (Cons w ws)
  from Cons.prems(1) have w: "py_split w = [w]" and ws: "\<forall>w\<in>set ws. is_word w"
    by (simp_all add: py_split_word)
  show ?case
  proof (cases "int (length (wc @ [SPACE] @ w)) \<le> m")
    case True
    with Cons.prems(2) have "word_loop m chunks (strip (wc @ [SPACE] @ w)) ws = (chunks', wc')"
      by simp
    from Cons.IH [OF ws this] show ?thesis
      by (simp add: py_split_strip py_split_join w)
  next
    case False
    with Cons.prems(2) have "word_loop m (flush chunks wc) w ws = (chunks', wc')"
      by simp
    from Cons.IH [OF ws this] show ?thesis
      by (simp add: chunk_words_flush w)
  qed
qed

lemma words_of_part:
  "word_loop m chunks [] (py_split part) = (chunks', wc') \<Longrightarrow>
   chunk_words (flush chunks' wc') = chunk_words chunks @ py_split part"
  using word_loop_words [of "py_split part" m chunks "[]" chunks' wc']
  by (simp add: chunk_words_flush py_split_words py_split_Nil)

lemma part_loop_words:
  "part_loop m chunks cur parts = (chunks', cur') \<Longrightarrow>
   mset (chunk_words chunks') + mset (py_split cur') =
   mset (chunk_words chunks) + mset (py_split cur) + mset (chunk_words parts)"
proof (induction parts arbitrary: chunks cur)
  case Nil
  then show ?case by (simp add: chunk_words_def)
next
  case (Cons p ps)
  have cw: "chunk_words (p # ps) = py_split p @ chunk_words ps"
    by (simp add: chunk_words_def)
  consider (long) "int (length p) > m"
    | (fits) "\<not> int (length p) > m" "int (length (cur @ [SPACE] @ p)) \<le> m"
    | (full) "\<not> int (length p) > m" "\<not> int (length (cur @ [SPACE] @ p)) \<le> m"
    by blast
  then show ?case
  proof cases
    case long
    obtain c1 wc1 where wl: "word_loop m chunks [] (py_split p) = (c1, wc1)"
      by (cases "word_loop m chunks [] (py_split p)")
    with long Cons.prems have "part_loop m (flush c1 wc1) cur ps = (chunks', cur')"
      by simp
    from Cons.IH [OF this] words_of_part [OF wl] show ?thesis
      by (simp add: cw)
  next
    case fits
    with Cons.prems have "part_loop m chunks (strip (cur @ [SPACE] @ p)) ps = (chunks', cur')"
      by simp
    from Cons.IH [OF this] show ?thesis
      by (simp add: cw py_split_strip py_split_join)
  next
    case full
    with Cons.prems have "part_loop m (flush chunks cur) p ps = (chunks', cur')"
      by simp
    from Cons.IH [OF this] show ?thesis
      by (simp add: cw chunk_words_flush)
  qed
qed

lemma chunk_words_resplit: "chunk_words (resplit_go X [] s) = py_split s"
  using resplit_words [of X "[]" s] by (simp add: chunk_words_def)

lemma sentence_loop_words:
  "sentence_loop m chunks cur sentences = (chunks', cur') \<Longrightarrow>
   mset (chunk_words chunks') + mset (py_split cur') =
   mset (chunk_words chunks) + mset (py_split cur) + mset (chunk_words sentences)"
proof (induction sentences arbitrary: chunks cur)
  case Nil
  then show ?case by (simp add: chunk_words_def)
next
  case (Cons s ss)
  have cw: "chunk_words (s # ss) = py_split s @ chunk_words ss"
    by (simp add: chunk_words_def)
  consider (long) "int (length s) > m"
    | (fits) "\<not> int (length s) > m" "int (length (cur @ [SPACE] @ s)) \<le> m"
    | (full) "\<not> int (length s) > m" "\<not> int (length (cur @ [SPACE] @ s)) \<le> m"
    by blast
  then show ?case
  proof cases
    case long
    obtain c1 cur1 where pl: "part_loop m (flush chunks cur) [] (resplit_go comma [] s) = (c1, cur1)"
      by (cases "part_loop m (flush chunks cur) [] (resplit_go comma [] s)")
    with long Cons.prems have "sentence_loop m c1 cur1 ss = (chunks', cur')"
      by simp
    from Cons.IH [OF this] part_loop_words [OF pl] show ?thesis
      by (simp add: cw chunk_words_flush chunk_words_resplit py_split_Nil)
  next
    case fits
    with Cons.prems have "sentence_loop m chunks (strip (cur @ [SPACE] @ s)) ss = (chunks', cur')"
      by simp
    from Cons.IH [OF this] show ?thesis
      by (simp add: cw py_split_strip py_split_join)
  next
    case full
    with Cons.prems have "sentence_loop m (flush chunks cur) s ss = (chunks', cur')"
      by simp
    from Cons.IH [OF this] show ?thesis
      by (simp add: cw chunk_words_flush)
  qed
qed

lemma chunk_words_filter:
  "chunk_words (filter (\<lambda>c. strip c \<noteq> []) chunks) = chunk_words chunks"
  by (induction chunks) (simp_all add: chunk_words_def py_split_blank)

lemma split_text_words: "mset (chunk_words (split_text t m)) = mset (py_split t)"
proof (cases "int (length t) \<le> m")
  case True
  then show ?thesis by (simp add: split_text_def chunk_words_def)
next
  case False
  obtain chunks cur where sl:
    "sentence_loop m [] [] (resplit_go sentence_end [] t) = (chunks, cur)"
    by (cases "sentence_loop m [] [] (resplit_go sentence_end [] t)")
  from sentence_loop_words [OF sl]
  have "mset (chunk_words (flush chunks cur)) = mset (py_split t)"
    by (simp add: chunk_words_flush chunk_words_resplit py_split_Nil)
       (simp add: chunk_words_def)
  with False sl show ?thesis
    by (simp add: split_text_def chunk_words_filter)
qed

lemma chunk_ok_strip: "chunk_ok m t c \<Longrightarrow> chunk_ok m t (strip c)"
  unfolding chunk_ok_def
  using length_strip [of c] strip_word [of c] py_split_words [of c t] by auto

lemma chunk_ok_short: "int (length c) \<le> m \<Longrightarrow> chunk_ok m t c"
  by (simp add: chunk_ok_def)

lemma flush_ok:
  "\<forall>c\<in>set chunks. chunk_ok m t c \<Longrightarrow> x \<noteq> [] \<longrightarrow> chunk_ok m t x \<Longrightarrow>
   \<forall>c\<in>set (flush chunks x). chunk_ok m t c"
  by (auto simp: flush_def chunk_ok_strip)

lemma word_loop_ok:
  "\<forall>c\<in>set chunks. chunk_ok m t c \<Longrightarrow> wc \<noteq> [] \<longrightarrow> chunk_ok m t wc \<Longrightarrow>
   set ws \<subseteq> set (py_split t) \<Longrightarrow> word_loop m chunks wc ws = (chunks', wc') \<Longrightarrow>
   (\<forall>c\<in>set chunks'. chunk_ok m t c) \<and> (wc' \<noteq> [] \<longrightarrow> chunk_ok m t wc')"
proof (induction ws arbitrary: chunks wc)
  case Nil
  then show ?case by simp
next
  case (Cons w ws)
  from Cons.prems(3) have w: "chunk_ok m t w" and ws: "set ws \<subseteq> set (py_split t)"
    by (simp_all add: chunk_ok_def)
  show ?case
  proof (cases "int (length (wc @ [SPACE] @ w)) \<le> m")
    case True
    with Cons.prems(4) have run: "word_loop m chunks (strip (wc @ [SPACE] @ w)) ws = (chunks', wc')"
      by simp
    from True have "chunk_ok m t (strip (wc @ [SPACE] @ w))"
      by (intro chunk_ok_strip chunk_ok_short)
    with Cons.IH [OF Cons.prems(1) _ ws run] show ?thesis by blast
  next
    case False
    with Cons.prems(4) have run: "word_loop m (flush chunks wc) w ws = (chunks', wc')"
      by simp
    from Cons.IH [OF flush_ok [OF Cons.prems(1,2)] _ ws run] w show ?thesis by blast
  qed
qed

lemma part_loop_ok:
  "\<forall>c\<in>set chunks. chunk_ok m t c \<Longrightarrow> cur \<noteq> [] \<longrightarrow> chunk_ok m t cur \<Longrightarrow>
   set (chunk_words parts) \<subseteq> set (py_split t) \<Longrightarrow>
   part_loop m chunks cur parts = (chunks', cur') \<Longrightarrow>
   (\<forall>c\<in>set chunks'. chunk_ok m t c) \<and> (cur' \<noteq> [] \<longrightarrow> chunk_ok m t cur')"
proof (induction parts arbitrary: chunks cur)
  case Nil
  then show ?case by simp
next
  case (Cons p ps)
  from Cons.prems(3) have p: "set (py_split p) \<subseteq> set (py_split t)"
    and ps: "set (chunk_words ps) \<subseteq> set (py_split t)"
    by (simp_all add: chunk_words_def)
  consider (long) "int (length p) > m"
    | (fits) "\<not> int (length p) > m" "int (length (cur @ [SPACE] @ p)) \<le> m"
    | (full) "\<not> int (length p) > m" "\<not> int (length (cur @ [SPACE] @ p)) \<le> m"
    by blast
  then show ?case
  proof cases
    case long
    obtain c1 wc1 where wl: "word_loop m chunks [] (py_split p) = (c1, wc1)"
      by (cases "word_loop m chunks [] (py_split p)")
    with long Cons.prems(4) have run: "part_loop m (flush c1 wc1) cur ps = (chunks', cur')"
      by simp
    from word_loop_ok [OF Cons.prems(1) _ p wl]
    have "\<forall>c\<in>set (flush c1 wc1). chunk_ok m t c"
      by (intro flush_ok) simp_all
    from Cons.IH [OF this Cons.prems(2) ps run] show ?thesis .
  next
    case fits
    with Cons.prems(4) have run: "part_loop m chunks (strip (cur @ [SPACE] @ p)) ps = (chunks', cur')"
      by simp
    from fits(2) have "chunk_ok m t (strip (cur @ [SPACE] @ p))"
      by (intro chunk_ok_strip chunk_ok_short)
    with Cons.IH [OF Cons.prems(1) _ ps run] show ?thesis by blast
  next
    case full
    with Cons.prems(4) have run: "part_loop m (flush chunks cur) p ps = (chunks', cur')"
      by simp
    from full(1) have "chunk_ok m t p" by (simp add: chunk_ok_def)
    with Cons.IH [OF flush_ok [OF Cons.prems(1,2)] _ ps run] show ?thesis by blast
  qed
qed

lemma sentence_loop_ok:
  "\<forall>c\<in>set chunks. chunk_ok m t c \<Longrightarrow> cur \<noteq> [] \<longrightarrow> chunk_ok m t cur \<Longrightarrow>
   set (chunk_words sentences) \<subseteq> set (py_split t) \<Longrightarrow>
   sentence_loop m chunks cur sentences = (chunks', cur') \<Longrightarrow>
   (\<forall>c\<in>set chunks'. chunk_ok m t c) \<and> (cur' \<noteq> [] \<longrightarrow> chunk_ok m t cur')"
proof (induction sentences arbitrary: chunks cur)
  case Nil
  then show ?case by simp
next
  case (Cons s ss)
  from Cons.prems(3) have s: "set (py_split s) \<subseteq> set (py_split t)"
    and ss: "set (chunk_words ss) \<subseteq> set (py_split t)"
    by (simp_all add: chunk_words_def)
  consider (long) "int (length s) > m"
    | (fits) "\<not> int (length s) > m" "int (length (cur @ [SPACE] @ s)) \<le> m"
    | (full) "\<not> int (length s) > m" "\<not> int (length (cur @ [SPACE] @ s)) \<le> m"
    by blast
  then show ?case
  proof cases
    case long
    obtain c1 cur1 where pl: "part_loop m (flush chunks cur) [] (resplit_go comma [] s) = (c1, cur1)"
      by (cases "part_loop m (flush chunks cur) [] (resplit_go comma [] s)")
    with long Cons.prems(4) have run: "sentence_loop m c1 cur1 ss = (chunks', cur')"
      by simp
    from s have "set (chunk_words (resplit_go comma [] s)) \<subseteq> set (py_split t)"
      by (simp add: chunk_words_resplit)
    from part_loop_ok [OF flush_ok [OF Cons.prems(1,2)] _ this pl]
    have "(\<forall>c\<in>set c1. chunk_ok m t c) \<and> (cur1 \<noteq> [] \<longrightarrow> chunk_ok m t cur1)"
      by simp
    with Cons.IH [OF _ _ ss run] show ?thesis by blast
  next
    case fits
    with Cons.prems(4) have run: "sentence_loop m chunks (strip (cur @ [SPACE] @ s)) ss = (chunks', cur')"
      by simp
    from fits(2) have "chunk_ok m t (strip (cur @ [SPACE] @ s))"
      by (intro chunk_ok_strip chunk_ok_short)
    with Cons.IH [OF Cons.prems(1) _ ss run] show ?thesis by blast
  next
    case full
    with Cons.prems(4) have run: "sentence_loop m (flush chunks cur) s ss = (chunks', cur')"
      by simp
    from full(1) have "chunk_ok m t s" by (simp add: chunk_ok_def)
    with Cons.IH [OF flush_ok [OF Cons.prems(1,2)] _ ss run] show ?thesis by blast
  qed
qed

lemma split_text_ok: "c \<in> set (split_text t m) \<Longrightarrow> chunk_ok m t c"
proof (cases "int (length t) \<le> m")
  case True
  assume "c \<in> set (split_text t m)"
  with True show ?thesis by (simp add: split_text_def chunk_ok_def)
next
  case False
  assume c: "c \<in> set (split_text t m)"
  obtain chunks cur where sl:
    "sentence_loop m [] [] (resplit_go sentence_end [] t) = (chunks, cur)"
    by (cases "sentence_loop m [] [] (resplit_go sentence_end [] t)")
  have "set (chunk_words (resplit_go sentence_end [] t)) \<subseteq> set (py_split t)"
    by (simp add: chunk_words_resplit)
  from sentence_loop_ok [OF _ _ this sl]
  have "(\<forall>c\<in>set chunks. chunk_ok m t c) \<and> (cur \<noteq> [] \<longrightarrow> chunk_ok m t cur)"
    by simp
  then have "\<forall>c\<in>set (flush chunks cur). chunk_ok m t c"
    by (intro flush_ok) simp_all
  with c False sl show ?thesis by (simp add: split_text_def)
qed

lemma long_word_emitted:
  assumes w: "w \<in> set (py_split t)" and long: "m < int (length w)"
  shows "w \<in> set (split_text t m)"
proof -
  from w have "w \<in># mset (chunk_words (split_text t m))"
    by (simp add: split_text_words)
  then obtain c where c: "c \<in> set (split_text t m)" and wc: "w \<in> set (py_split c)"
    by (auto simp: chunk_words_def)
  from py_split_length [OF wc] long have "\<not> int (length c) \<le> m" by simp
  with split_text_ok [OF c] have "c \<in> set (py_split t)" by (simp add: chunk_ok_def)
  then have "py_split c = [c]" by (simp add: py_split_word py_split_words)
  with wc c show ?thesis by simp
qed

lemma chunk_words_Cons: "chunk_words (p # ps) = py_split p @ chunk_words ps"
  by (simp add: chunk_words_def)

lemma flush_word: "is_word w \<Longrightarrow> flush chunks w = chunks @ [w]"
  by (simp add: flush_def strip_word) (simp add: is_word_def)

lemma flush_Nil: "flush chunks [] = chunks"
  by (simp add: flush_def)

lemma word_loop_degenerate:
  "m \<le> 0 \<Longrightarrow> \<forall>w\<in>set ws. is_word w \<Longrightarrow> wc = [] \<or> is_word wc \<Longrightarrow>
   word_loop m chunks wc ws = (chunks', wc') \<Longrightarrow>
   flush chunks' wc' = flush chunks wc @ ws"
proof (induction ws arbitrary: chunks wc)
  case Nil
  then show ?case by simp
next
  case (Cons w ws)
  from Cons.prems(1) have "\<not> int (length (wc @ [SPACE] @ w)) \<le> m" by simp
  with Cons.prems(4) have run: "word_loop m (flush chunks wc) w ws = (chunks', wc')"
    by simp
  from Cons.prems(2) have w: "is_word w" and ws: "\<forall>w\<in>set ws. is_word w" by simp_all
  from Cons.IH [OF Cons.prems(1) ws _ run] w show ?case
    by (simp add: flush_word)
qed

lemma part_loop_degenerate:
  "m \<le> 0 \<Longrightarrow> part_loop m chunks [] parts = (chunks @ chunk_words parts, [])"
proof (induction parts arbitrary: chunks)
  case Nil
  then show ?case by (simp add: chunk_words_def)
next
  case (Cons p ps)
  have cw: "chunk_words (p # ps) = py_split p @ chunk_words ps"
    by (simp add: chunk_words_def)
  show ?case
  proof (cases "int (length p) > m")
    case True
    obtain c1 wc1 where wl: "word_loop m chunks [] (py_split p) = (c1, wc1)"
      by (cases "word_loop m chunks [] (py_split p)")
    from word_loop_degenerate [OF Cons.prems _ _ wl]
    have "flush c1 wc1 = chunks @ py_split p"
      by (simp add: py_split_words flush_Nil)
    with True wl Cons.IH [OF Cons.prems, of "chunks @ py_split p"] show ?thesis
      by (simp add: cw)
  next
    case False
    with Cons.prems have "p = []" by (cases p) auto
    with Cons.prems Cons.IH [OF Cons.prems, of chunks] show ?thesis
      by (auto simp: chunk_words_Cons py_split_Nil flush_Nil)
  qed
qed

lemma sentence_loop_degenerate:
  "m \<le> 0 \<Longrightarrow> sentence_loop m chunks [] sentences = (chunks @ chunk_words sentences, [])"
proof (induction sentences arbitrary: chunks)
  case Nil
  then show ?case by (simp add: chunk_words_def)
next
  case (Cons s ss)
  have cw: "chunk_words (s # ss) = py_split s @ chunk_words ss"
    by (simp add: chunk_words_def)
  show ?case
  proof (cases "int (length s) > m")
    case True
    with Cons.prems Cons.IH [OF Cons.prems, of "chunks @ py_split s"] show ?thesis
      by (simp add: cw flush_Nil part_loop_degenerate chunk_words_resplit)
  next
    case False
    with Cons.prems have "s = []" by (cases s) auto
    with Cons.prems Cons.IH [OF Cons.prems, of chunks] show ?thesis
      by (auto simp: chunk_words_Cons py_split_Nil flush_Nil)
  qed
qed

lemma filter_words: "\<forall>w\<in>set ws. is_word w \<Longrightarrow> filter (\<lambda>c. strip c \<noteq> []) ws = ws"
  by (induction ws) (simp_all add: strip_word, simp add: is_word_def)

lemma split_text_degenerate:
  assumes "m \<le> 0" and "m < int (length t)"
  shows "split_text t m = py_split t"
proof -
  from assms(2) have "\<not> int (length t) \<le> m" by simp
  then show ?thesis
    using sentence_loop_degenerate [OF assms(1), of "[]" "resplit_go sentence_end [] t"]
    by (simp add: split_text_def flush_Nil chunk_words_resplit filter_words py_split_words)
qed

section \<open>Claims about the chunker\<close>

text \<open>
  C1. Joining the chunks of \<open>_split_text(t, m)\<close> with single spaces should give \<open>t\<close> up to
  whitespace normalisation, the non-whitespace content in the order of \<open>t\<close>. The code
  breaks the order: at \<open>_split_text("a, bbb ccc", 5)\<close> the clause \<open>"a,"\<close> waits in
  \<open>current\<close> while the words of the oversized clause \<open>"bbb ccc"\<close> are appended to
  \<open>chunks\<close>, and it is emitted after them. The words of the joined result are no longer
  the words of the input in order.
\<close>

theorem split_text_order_broken:
  "split_text (pystr_of ''a, bbb ccc'') 5 = [pystr_of ''bbb'', pystr_of ''ccc'', pystr_of ''a,'']
   \<and> join_space (split_text (pystr_of ''a, bbb ccc'') 5) = pystr_of ''bbb ccc a,''
   \<and> py_split (join_space (split_text (pystr_of ''a, bbb ccc'') 5))
       \<noteq> py_split (pystr_of ''a, bbb ccc'')"
  by (simp add: split_text_def pystr_of_def isspace_def sentence_end_def comma_def flush_def
      strip_def py_split_def SPACE_def)

text \<open>
  C2. For a budget \<open>m > 0\<close>, every chunk of \<open>_split_text(t, m)\<close> has at most \<open>m\<close>
  characters, unless it is a single word of \<open>t\<close> longer than \<open>m\<close>; and every word of
  \<open>t\<close> longer than \<open>m\<close> is a chunk of the result, whole.
\<close>

theorem split_text_chunk_bound:
  "0 < m \<Longrightarrow>
   (\<forall>c\<in>set (split_text t m).
      int (length c) \<le> m \<or> (c \<in> set (py_split t) \<and> m < int (length c))) \<and>
   (\<forall>w\<in>set (py_split t). m < int (length w) \<longrightarrow> w \<in> set (split_text t m))"
  using split_text_ok [of _ t m] long_word_emitted [of _ t m]
  by (fastforce simp: chunk_ok_def)

theorem split_text_chunk_bound_witness:
  "(0::int) < 5 \<and>
   split_text (pystr_of ''hi incomprehensible yo'') 5 =
     [pystr_of ''hi'', pystr_of ''incomprehensible'', pystr_of ''yo''] \<and>
   int (length (pystr_of ''hi'')) \<le> 5 \<and>
   pystr_of ''incomprehensible'' \<in> set (py_split (pystr_of ''hi incomprehensible yo'')) \<and>
   5 < int (length (pystr_of ''incomprehensible'')) \<and>
   pystr_of ''incomprehensible'' \<in> set (split_text (pystr_of ''hi incomprehensible yo'') 5)"
  using split_text_chunk_bound [of 5 "pystr_of ''hi incomprehensible yo''"]
  by (simp add: split_text_def pystr_of_def isspace_def sentence_end_def comma_def flush_def
      strip_def py_split_def SPACE_def)

text \<open>
  C4. A text of at most \<open>m\<close> characters is returned as the one-element list \<open>[t]\<close>,
  unchanged.
\<close>

theorem split_text_short:
  "int (length t) \<le> m \<Longrightarrow> split_text t m = [t]"
  by (simp add: split_text_def)

theorem split_text_short_witness:
  "int (length (pystr_of '' hi  '')) \<le> 5 \<and> split_text (pystr_of '' hi  '') 5 = [pystr_of '' hi  '']"
  using split_text_short [of "pystr_of '' hi  ''" 5]
  by (simp add: pystr_of_def)

text \<open>
  C5. The claim that \<open>_split_text("", m)\<close> is the empty list fails: the empty text is
  at most \<open>m\<close> characters long, so the first test returns \<open>[""]\<close> before anything is
  filtered.
\<close>

theorem split_text_empty_counterexample:
  "(0::int) < 1 \<and> split_text [] 1 = [[]] \<and> split_text [] 1 \<noteq> []"
  by (simp add: split_text_def)

text \<open>
  C5, as amended. For every \<open>m > 0\<close>, \<open>_split_text("", m)\<close> is \<open>[""]\<close>; empty and
  whitespace-only chunks are filtered from the result of every text longer than \<open>m\<close>.
\<close>

theorem split_text_empty:
  "0 < m \<Longrightarrow>
   split_text [] m = [[]] \<and>
   (\<forall>t. m < int (length t) \<longrightarrow> (\<forall>c\<in>set (split_text t m). strip c \<noteq> []))"
  by (auto simp: split_text_def split: prod.splits)

theorem split_text_empty_witness:
  "(0::int) < 2 \<and> split_text [] 2 = [[]] \<and>
   2 < int (length (pystr_of ''a b c'')) \<and>
   split_text (pystr_of ''a b c'') 2 = [pystr_of ''a'', pystr_of ''b'', pystr_of ''c''] \<and>
   strip (pystr_of ''a'') \<noteq> [] \<and> strip (pystr_of ''b'') \<noteq> [] \<and> strip (pystr_of ''c'') \<noteq> []"
  using split_text_empty [of 2]
  by (simp add: split_text_def pystr_of_def isspace_def sentence_end_def comma_def flush_def
      strip_def py_split_def SPACE_def)

text \<open>
  C6. \<open>_split_text(t, m)\<close> returns for every text and every budget: the model is a total
  function, each loop a recursion over the finite list it iterates. The chunks it
  returns hold exactly the words of the input, none lost and none invented. With the
  degenerate budget \<open>m = 0\<close> every word of a non-empty text becomes a chunk of its own,
  in order; \<open>_split_text("a", 0)\<close> is \<open>["a"]\<close>.
\<close>

theorem split_text_progress:
  "(\<exists>chunks. split_text t m = chunks \<and> mset (chunk_words chunks) = mset (py_split t)) \<and>
   split_text t 0 = (if t = [] then [[]] else py_split t) \<and>
   split_text (pystr_of ''a'') 0 = [pystr_of ''a'']"
proof (intro conjI)
  show "\<exists>chunks. split_text t m = chunks \<and> mset (chunk_words chunks) = mset (py_split t)"
    by (simp add: split_text_words)
  show "split_text t 0 = (if t = [] then [[]] else py_split t)"
    using split_text_degenerate [of 0 t] by (simp add: split_text_def)
  show "split_text (pystr_of ''a'') 0 = [pystr_of ''a'']"
    using split_text_degenerate [of 0 "pystr_of ''a''"]
    by (simp add: pystr_of_def py_split_def isspace_def)
qed

text \<open>
  C7. \<open>_split_text("Hello world. This is a test.", 15)\<close> is
  \<open>["Hello world.", "This is a test."]\<close>.
\<close>

theorem split_text_scenario_1:
  "split_text (pystr_of ''Hello world. This is a test.'') 15 =
     [pystr_of ''Hello world.'', pystr_of ''This is a test.'']"
  by (simp add: split_text_def pystr_of_def isspace_def sentence_end_def comma_def flush_def
      strip_def py_split_def SPACE_def)

section \<open>Rounding of the silence length\<close>

lemma bit_length_bounds:
  "0 < n \<Longrightarrow> 2 ^ (bit_length n - 1) \<le> n \<and> n < 2 ^ bit_length n"
proof (induction n rule: bit_length.induct)
  case (1 n)
  show ?case
  proof (cases "n div 2 = 0")
    case True
    with 1(2) have "n = 1" by (cases n) auto
    then show ?thesis by (simp add: bit_length.simps [of "Suc 0"] bit_length.simps [of 0])
  next
    case False
    with 1 have IH: "2 ^ (bit_length (n div 2) - 1) \<le> n div 2" "n div 2 < 2 ^ bit_length (n div 2)"
      by simp_all
    from False have pos: "0 < bit_length (n div 2)"
      by (simp add: bit_length.simps [of "n div 2"])
    have bl: "bit_length n = Suc (bit_length (n div 2))"
      using 1(2) by (simp add: bit_length.simps [of n])
    from IH(1) have "2 * 2 ^ (bit_length (n div 2) - 1) \<le> n" by linarith
    moreover from pos have "2 * 2 ^ (bit_length (n div 2) - 1) = (2::nat) ^ bit_length (n div 2)"
      by (cases "bit_length (n div 2)") simp_all
    moreover from IH(2) have "n < 2 * 2 ^ bit_length (n div 2)" by linarith
    ultimately show ?thesis by (simp add: bl)
  qed
qed

lemma bit_length_eqI:
  assumes "2 ^ k \<le> n" and "n < 2 ^ Suc k"
  shows "bit_length n = Suc k"
proof -
  from assms(1) have pos: "0 < n" by (cases n) auto
  note b = bit_length_bounds [OF pos]
  have "bit_length n \<le> Suc k"
  proof (rule ccontr)
    assume "\<not> bit_length n \<le> Suc k"
    then have "Suc k \<le> bit_length n - 1" by simp
    then have "(2::nat) ^ Suc k \<le> 2 ^ (bit_length n - 1)"
      by (rule power_increasing) simp
    with b assms(2) show False by linarith
  qed
  moreover have "Suc k \<le> bit_length n"
  proof (rule ccontr)
    assume "\<not> Suc k \<le> bit_length n"
    then have "bit_length n \<le> k" by simp
    then have "(2::nat) ^ bit_length n \<le> 2 ^ k"
      by (rule power_increasing) simp
    with b assms(1) show False by linarith
  qed
  ultimately show ?thesis by simp
qed

lemma bl_24000: "bit_length 24000 = 15"
  using bit_length_eqI [of 14 24000] by simp

lemma bl_prod: "bit_length 129703669268270280000 = 67"
  using bit_length_eqI [of 66 129703669268270280000] by simp

lemma bl_q: "bit_length 7916483719987200 = 53"
  using bit_length_eqI [of 52 7916483719987200] by simp

lemma float_24000: "float_of_int 24000 = Inr (Finite 24000 0)"
  by (simp add: float_of_int_def round_double_def signed_double_def Let_def bl_24000)

lemma mul_24000: "float_mul point_three (Finite 24000 0) = Finite 7916483719987200 (- 40)"
  by (simp add: point_three_def round_double_def signed_double_def Let_def bl_prod bl_q)

lemma bit_length_le: "n < 2 ^ k \<Longrightarrow> bit_length n \<le> k"
proof (cases "n = 0")
  case True
  then show ?thesis by (simp add: bit_length.simps [of 0])
next
  case False
  assume n: "n < 2 ^ k"
  from False have "2 ^ (bit_length n - 1) \<le> n" using bit_length_bounds [of n] by simp
  with n have "(2::nat) ^ (bit_length n - 1) < 2 ^ k" by linarith
  then have "bit_length n - 1 < k" by (simp add: power_strict_increasing_iff)
  then show ?thesis by simp
qed

lemma float_of_int_exact:
  assumes "0 < r" and "r < 2 ^ 53"
  shows "float_of_int r = Inr (Finite r 0)"
proof -
  from assms have "nat r < 2 ^ 53" by (simp add: nat_less_iff)
  then have "bit_length (nat r) \<le> 53" by (rule bit_length_le)
  with assms show ?thesis
    by (simp add: float_of_int_def round_double_def signed_double_def Let_def)
qed

lemma two_power_mod_3: "(2::nat) ^ n mod 3 = 1 \<or> (2::nat) ^ n mod 3 = 2"
proof (induction n)
  case 0
  show ?case by simp
next
  case (Suc n)
  have "(2::nat) ^ Suc n mod 3 = (2 * (2 ^ n mod 3)) mod 3"
    by (simp add: mod_mult_right_eq)
  with Suc show ?case by auto
qed

lemma three_times_not_power: "0 < j \<Longrightarrow> 3 * j \<noteq> (2::nat) ^ n"
  using two_power_mod_3 [of n] by (metis mod_mult_self1_is_0 one_neq_zero zero_neq_numeral)

lemma round_double_up:
  assumes "0 \<le> m" and "E = e + int (bit_length (nat m)) - 53" and "- 1074 \<le> E" and "e < E"
    and "nat (E - e) = s" and "nat m div 2 ^ s = d" and "nat m mod 2 ^ s = r"
    and "2 ^ (s - 1) < r" and "int (bit_length (d + 1)) + E \<le> 1024"
  shows "round_double m e = Finite (int (d + 1)) E"
proof -
  have a: "nat \<bar>m\<bar> = nat m" using assms(1) by simp
  have "max E (- 1074) = E" using assms(3) by simp
  then have E: "max (e + int (bit_length (nat m)) - 53) (- 1074) = E"
    by (simp only: assms(2) [symmetric])
  have neg: "\<not> m < 0" "\<not> E \<le> e" using assms(1,4) by simp_all
  show ?thesis
    unfolding round_double_def Let_def a E
    using neg assms(8,9)
    by (simp only: assms(5,6,7) signed_double_def if_True if_False) simp
qed

lemma round_point_three:
  fixes j :: nat
  assumes j: "0 < j" and small: "3 * j < 2 ^ 53"
  shows "round_double (5404319552844595 * (10 * int j)) (- 54) =
           Finite (int (3 * j * 2 ^ (53 - bit_length (3 * j)))) (int (bit_length (3 * j)) - 53)"
proof -
  define t where "t = 3 * j"
  define b where "b = bit_length t"
  define M where "M = t * 2 ^ 54 - 2 * j"
  have tpos: "0 < t" using j by (simp add: t_def)
  from bit_length_bounds [OF tpos] have lo: "2 ^ (b - 1) \<le> t" and hi: "t < 2 ^ b"
    by (simp_all add: b_def)
  from small have b53: "b \<le> 53" unfolding b_def t_def by (rule bit_length_le)
  from hi tpos have bpos: "0 < b" by (cases b) auto
  from three_times_not_power [OF j, of "b - 1"] lo have lo': "2 ^ (b - 1) + 1 \<le> t"
    by (simp add: t_def)
  have j2: "2 * j < t" using j by (simp add: t_def)
  have jsmall: "2 * j \<le> 2 ^ 54" using small by simp
  have Mint: "5404319552844595 * (10 * int j) = int M"
  proof -
    have "2 * j \<le> t * 2 ^ 54" using j2 by (simp add: t_def)
    then show ?thesis by (simp add: M_def t_def of_nat_diff)
  qed
  have pw: "(2::nat) ^ b = 2 * 2 ^ (b - 1)" using bpos by (cases b) simp_all
  have blM: "bit_length M = b + 54"
  proof -
    have "(2 ^ (b - 1) + 1) * 2 ^ 54 \<le> t * (2::nat) ^ 54"
      using lo' by (rule mult_le_mono1)
    then have "2 ^ (b - 1) * 2 ^ 54 + 2 ^ 54 \<le> t * (2::nat) ^ 54"
      by (simp add: algebra_simps)
    with jsmall have "2 ^ (b - 1) * 2 ^ 54 \<le> M" by (simp add: M_def)
    moreover have "(2::nat) ^ (b + 53) = 2 ^ (b - 1) * 2 ^ 54"
      using bpos by (cases b) (simp_all add: power_add)
    ultimately have 1: "2 ^ (b + 53) \<le> M" by simp
    have "M < t * 2 ^ 54" using j tpos by (simp add: M_def)
    also have "\<dots> < 2 ^ b * 2 ^ 54" using hi by simp
    finally have 2: "M < 2 ^ Suc (b + 53)" by (simp add: power_add)
    from bit_length_eqI [OF 1 2] show ?thesis by simp
  qed
  define K where "K = (2::nat) ^ (53 - b)"
  define P where "P = (2::nat) ^ (b + 1)"
  have KP: "K * P = 2 ^ 54" using b53 by (simp add: K_def P_def power_add [symmetric])
  have Kpos: "0 < K" by (simp add: K_def)
  have jP: "2 * j < P" using j2 hi by (simp add: P_def)
  have Msplit: "M = (t * K - 1) * P + (P - 2 * j)"
  proof -
    have "1 \<le> t * K" using tpos Kpos by (simp add: Suc_le_eq)
    then have "(t * K - 1) * P + P = t * K * P"
      by (simp add: algebra_simps)
    then have "(t * K - 1) * P + P = t * 2 ^ 54" using KP by (simp add: mult.assoc)
    with jP show ?thesis by (simp add: M_def)
  qed
  have rem_lt: "P - 2 * j < P" using j by (simp add: P_def)
  have d: "M div P = t * K - 1" and r: "M mod P = P - 2 * j"
    using rem_lt by (simp_all add: Msplit)
  have half: "2 ^ b < P - 2 * j" using j2 hi by (simp add: P_def)
  have q: "t * K - 1 + 1 = t * K" using tpos Kpos by simp
  have tK: "t * K < 2 ^ 53"
  proof -
    have "t * K < 2 ^ b * K" using hi Kpos by simp
    also have "\<dots> = 2 ^ 53" using b53 by (simp add: K_def power_add [symmetric])
    finally show ?thesis .
  qed
  then have blq: "bit_length (t * K) \<le> 53" by (rule bit_length_le)
  have "round_double (int M) (- 54) = Finite (int (t * K - 1 + 1)) (int b - 53)"
  proof (rule round_double_up [where s = "b + 1" and r = "P - 2 * j"])
    show "int b - 53 = - 54 + int (bit_length (nat (int M))) - 53" by (simp add: blM)
    show "- 1074 \<le> int b - 53" by simp
    show "- 54 < int b - 53" by simp
    show "nat (int b - 53 - - 54) = b + 1" by simp
    show "nat (int M) div 2 ^ (b + 1) = t * K - 1" using d by (simp add: P_def)
    show "nat (int M) mod 2 ^ (b + 1) = P - 2 * j" using r by (simp add: P_def)
    show "2 ^ (b + 1 - 1) < P - 2 * j" using half by simp
    show "int (bit_length (t * K - 1 + 1)) + (int b - 53) \<le> 1024"
      unfolding q using blq b53 by simp
  qed simp
  then have "round_double (int M) (- 54) = Finite (int (t * K)) (int b - 53)"
    by (simp only: q)
  then show ?thesis
    unfolding Mint by (simp only: K_def t_def b_def)
qed


lemma silence_samples_tenth:
  assumes rate: "sr_or_default model_sr = r" and pos: "0 < r" and small: "r < 2 ^ 53"
    and ten: "10 dvd r"
  shows "silence_samples model_sr = Inr (3 * (r div 10))"
proof -
  from ten pos obtain j :: nat where r: "r = 10 * int j" and j: "0 < j"
  proof -
    from ten obtain k where k: "r = 10 * k" by (auto simp: dvd_def)
    with pos have "0 < k" by simp
    then have "k = int (nat k)" "0 < nat k" by simp_all
    with k that [of "nat k"] show ?thesis by simp
  qed
  from small r have j3: "3 * j < 2 ^ 53" by (simp flip: of_nat_less_iff [where 'a = int])
  define b where "b = bit_length (3 * j)"
  from j3 have b53: "b \<le> 53" unfolding b_def by (rule bit_length_le)
  have conv: "float_of_int r = Inr (Finite r 0)"
    using pos small by (rule float_of_int_exact)
  have mul: "float_mul point_three (Finite r 0) =
      Finite (int (3 * j * 2 ^ (53 - b))) (int b - 53)"
    using round_point_three [OF j j3] by (simp add: point_three_def r b_def)
  have "int_of_float (Finite (int (3 * j * 2 ^ (53 - b))) (int b - 53)) = Inr (int (3 * j))"
  proof (cases "b = 53")
    case True
    then show ?thesis by (simp add: int_of_float_def)
  next
    case False
    with b53 have lt: "b < 53" by simp
    then have n: "nat (53 - int b) = 53 - b" by simp
    have "int (3 * j * 2 ^ (53 - b)) div 2 ^ (53 - b) = int (3 * j)"
      by simp
    with lt show ?thesis by (simp add: int_of_float_def n)
  qed
  with conv mul rate show ?thesis
    by (simp add: silence_samples_def r)
qed

lemma silence_samples_24000: "silence_samples (Some 24000) = Inr 7200"
  by (simp add: silence_samples_def sr_or_default_def float_24000 mul_24000 int_of_float_def)

section \<open>Concatenation of the synthesised chunks\<close>

lemma cat_loop_samples:
  "\<forall>w\<in>set wavs. device w = device combined \<Longrightarrow> device silence = device combined \<Longrightarrow>
   \<exists>r. cat_loop combined silence wavs = Inr r \<and> device r = device combined \<and>
       samples r = samples combined @ concat (map (\<lambda>w. samples silence @ samples w) wavs)"
proof (induction wavs arbitrary: combined)
  case Nil
  then show ?case by simp
next
  case (Cons w ws)
  let ?c = "\<lparr>dtype = promote (promote (dtype combined) (dtype silence)) (dtype w),
            device = device combined, samples = samples combined @ samples silence @ samples w\<rparr>"
  from Cons.prems have cat: "torch_cat3 combined silence w = Inr ?c"
    by (simp add: torch_cat3_def)
  from Cons.prems have "\<forall>u\<in>set ws. device u = device ?c" "device silence = device ?c"
    by simp_all
  from Cons.IH [OF this] cat show ?case by auto
qed

lemma interleaved_Cons:
  "interleaved s (w # ws) = w @ concat (map (\<lambda>u. s @ u) ws)"
  by (induction ws arbitrary: w) simp_all

lemma length_interleaved:
  "ws \<noteq> [] \<Longrightarrow> length (interleaved s ws) = sum_list (map length ws) + (length ws - 1) * length s"
proof (induction s ws rule: interleaved.induct)
  case (3 s w v ws)
  then show ?case by simp
qed simp_all

lemma generate_all_outputs:
  "generate_all b params i chunks = (calls, Inr wavs) \<Longrightarrow>
   length wavs = length chunks \<and> calls = map Generate chunks \<and>
   (\<forall>k<length chunks. model_generate b (i + k) (chunks ! k) params = Inr (wavs ! k))"
proof (induction chunks arbitrary: i calls wavs)
  case Nil
  then show ?case by simp
next
  case (Cons c cs)
  from Cons.prems obtain w calls' wavs' where
    w: "model_generate b i c params = Inr w" and
    rest: "generate_all b params (Suc i) cs = (calls', Inr wavs')" and
    eq: "calls = Generate c # calls'" "wavs = w # wavs'"
    by (auto split: sum.splits prod.splits)
  from Cons.IH [OF rest] w eq show ?case
    by (auto simp: nth_Cons split: nat.splits)
qed


lemma cat_loop_result:
  "cat_loop combined silence wavs = Inr r \<Longrightarrow>
   device r = device combined \<and>
   samples r = samples combined @ concat (map (\<lambda>w. samples silence @ samples w) wavs)"
proof (induction wavs arbitrary: combined)
  case Nil
  then show ?case by simp
next
  case (Cons w ws)
  from Cons.prems obtain c where cat: "torch_cat3 combined silence w = Inr c"
    and run: "cat_loop c silence ws = Inr r"
    by (auto split: sum.splits)
  from cat have "device c = device combined"
    and "samples c = samples combined @ samples silence @ samples w"
    by (auto simp: torch_cat3_def split: if_splits)
  with Cons.IH [OF run] show ?case by simp
qed

lemma make_silence_result:
  "make_silence n wav0 = Inr silence \<Longrightarrow>
   0 \<le> n \<and>
   silence = \<lparr>dtype = dtype wav0, device = device wav0, samples = replicate (nat n) 0\<rparr>"
  by (auto simp: make_silence_def torch_zeros_def tensor_to_def split: if_splits)

lemma make_silence_succeeds:
  "0 \<le> n \<Longrightarrow>
   make_silence n wav0 =
     Inr \<lparr>dtype = dtype wav0, device = device wav0, samples = replicate (nat n) 0\<rparr>"
  by (auto simp: make_silence_def torch_zeros_def tensor_to_def)

lemma combine_wavs_two:
  "combine_wavs model_sr (w0 # w1 # rest) =
     (case silence_samples model_sr of
        Inl e \<Rightarrow> Inl e
      | Inr n \<Rightarrow>
          (case make_silence n w0 of
             Inl e \<Rightarrow> Inl e
           | Inr silence \<Rightarrow> cat_loop w0 silence (w1 # rest)))"
  by (simp add: combine_wavs_def split: sum.splits)

lemma combine_wavs_result:
  assumes "2 \<le> length wavs" and "combine_wavs model_sr wavs = Inr out"
  shows "\<exists>n. silence_samples model_sr = Inr n \<and> 0 \<le> n \<and>
           make_silence n (hd wavs) =
             Inr \<lparr>dtype = dtype (hd wavs), device = device (hd wavs),
                  samples = replicate (nat n) 0\<rparr> \<and>
           samples out = interleaved (replicate (nat n) 0) (map samples wavs)"
proof -
  from assms(1) obtain w0 w1 rest where wavs: "wavs = w0 # w1 # rest"
    by (cases wavs; cases "tl wavs") auto
  with assms(2) obtain n silence where n: "silence_samples model_sr = Inr n"
    and sil: "make_silence n w0 = Inr silence"
    and run: "cat_loop w0 silence (w1 # rest) = Inr out"
    by (auto simp: combine_wavs_two split: sum.splits)
  from make_silence_result [OF sil] have pos: "0 \<le> n"
    and s: "silence = \<lparr>dtype = dtype w0, device = device w0, samples = replicate (nat n) 0\<rparr>"
    by simp_all
  from cat_loop_result [OF run] s
  have "samples out = interleaved (replicate (nat n) 0) (map samples wavs)"
    by (simp only: wavs list.map interleaved_Cons) (simp add: comp_def)
  with n pos sil s show ?thesis by (auto simp: wavs)
qed

lemma combine_wavs_succeeds:
  assumes "2 \<le> length wavs" and "silence_samples model_sr = Inr n" and "0 \<le> n"
    and "\<forall>w\<in>set wavs. device w = device (hd wavs)"
  shows "\<exists>out. combine_wavs model_sr wavs = Inr out"
proof -
  from assms(1) obtain w0 w1 rest where wavs: "wavs = w0 # w1 # rest"
    by (cases wavs; cases "tl wavs") auto
  let ?s = "\<lparr>dtype = dtype w0, device = device w0, samples = replicate (nat n) (0::'a)\<rparr>"
  from assms(4) wavs have "\<forall>w\<in>set (w1 # rest). device w = device w0" "device ?s = device w0"
    by simp_all
  from cat_loop_samples [OF this] obtain r where "cat_loop w0 ?s (w1 # rest) = Inr r"
    by blast
  with make_silence_succeeds [OF assms(3), of w0] assms(2) wavs show ?thesis
    by (simp add: combine_wavs_two)
qed

lemmas chunker_defs = split_text_def pystr_of_def isspace_def sentence_end_def comma_def flush_def
      strip_def py_split_def SPACE_def

text \<open>
  C8. When the model is loaded and every chunk is synthesised, \<open>n \<ge> 2\<close> waveforms
  \<open>w1, ..., wn\<close> in chunk order (the \<open>k\<close>-th is the model's output for the \<open>k\<close>-th
  chunk), the audio \<open>_generate_wav\<close> returns has the samples
  \<open>w1 @ s @ w2 @ s @ ... @ s @ wn\<close>, where the silence \<open>s\<close> is
  \<open>int(0.3 * sample_rate)\<close> zeros, the product and its truncation computed on doubles
  as line 145 does, with the dtype and the device of \<open>w1\<close>; its sample count is the sum
  of the counts of the waveforms plus \<open>(n - 1) * int(0.3 * sample_rate)\<close>. It does
  return when that size is not negative and the waveforms are on one device. For a
  sample rate that is a multiple of 10 below \<open>2 ^ 53\<close>, as the default 24000 is,
  \<open>int(0.3 * sample_rate)\<close> is three tenths of the rate exactly, and the two gaps
  between three chunks hold six tenths of the rate in samples: 0.6 seconds.
\<close>

theorem generate_wav_concatenation:
  assumes load: "load_model b = Inr model_sr"
    and gen: "generate_all b params 0 (split_text text chunk_size) = (calls, Inr wavs)"
    and n: "2 \<le> length wavs"
  shows "(\<forall>out. snd (generate_wav b text params chunk_size) = Inr out \<longrightarrow>
            (\<exists>gap. silence_samples model_sr = Inr gap \<and> 0 \<le> gap \<and>
               make_silence gap (hd wavs) =
                 Inr \<lparr>dtype = dtype (hd wavs), device = device (hd wavs),
                      samples = replicate (nat gap) 0\<rparr> \<and>
               samples out = interleaved (replicate (nat gap) 0) (map samples wavs) \<and>
               int (length (samples out)) =
                 int (sum_list (map (\<lambda>w. length (samples w)) wavs)) +
                 (int (length wavs) - 1) * gap)) \<and>
         (\<forall>k<length wavs.
            model_generate b k (split_text text chunk_size ! k) params = Inr (wavs ! k)) \<and>
         (\<forall>gap. silence_samples model_sr = Inr gap \<and> 0 \<le> gap \<and>
            (\<forall>w\<in>set wavs. device w = device (hd wavs)) \<longrightarrow>
            (\<exists>out. snd (generate_wav b text params chunk_size) = Inr out)) \<and>
         (\<forall>r. sr_or_default model_sr = r \<and> 0 < r \<and> r < 2 ^ 53 \<and> 10 dvd r \<longrightarrow>
            silence_samples model_sr = Inr (3 * (r div 10)) \<and>
            (\<forall>out. snd (generate_wav b text params chunk_size) = Inr out \<and> length wavs = 3 \<longrightarrow>
               10 * int (length (samples out)) =
                 10 * int (sum_list (map (\<lambda>w. length (samples w)) wavs)) + 6 * r))"
proof (intro conjI allI impI)
  have gw: "snd (generate_wav b text params chunk_size) = combine_wavs model_sr wavs"
    by (simp add: generate_wav_def load gen)
  have ne: "map samples wavs \<noteq> []" using n by auto
  have count: "int (length (samples out)) =
      int (sum_list (map (\<lambda>w. length (samples w)) wavs)) + (int (length wavs) - 1) * gap"
    if "samples out = interleaved (replicate (nat gap) 0) (map samples wavs)" and "0 \<le> gap"
    for out :: "'a tensor" and gap
  proof -
    from length_interleaved [OF ne, of "replicate (nat gap) 0"] that(1)
    have "length (samples out) =
        sum_list (map (\<lambda>w. length (samples w)) wavs) + (length wavs - 1) * nat gap"
      by (simp add: comp_def)
    then have "int (length (samples out)) =
        int (sum_list (map (\<lambda>w. length (samples w)) wavs)) + int (length wavs - 1) * int (nat gap)"
      by simp
    with that(2) n show ?thesis by (simp add: of_nat_diff)
  qed
  {
    fix out
    assume "snd (generate_wav b text params chunk_size) = Inr out"
    with gw have cw: "combine_wavs model_sr wavs = Inr out" by simp
    from combine_wavs_result [OF n cw] count
    show "\<exists>gap. silence_samples model_sr = Inr gap \<and> 0 \<le> gap \<and>
               make_silence gap (hd wavs) =
                 Inr \<lparr>dtype = dtype (hd wavs), device = device (hd wavs),
                      samples = replicate (nat gap) 0\<rparr> \<and>
               samples out = interleaved (replicate (nat gap) 0) (map samples wavs) \<and>
               int (length (samples out)) =
                 int (sum_list (map (\<lambda>w. length (samples w)) wavs)) +
                 (int (length wavs) - 1) * gap"
      by blast
  }
  {
    fix k
    assume "k < length wavs"
    with generate_all_outputs [OF gen]
    show "model_generate b k (split_text text chunk_size ! k) params = Inr (wavs ! k)"
      by simp
  }
  {
    fix gap
    assume "silence_samples model_sr = Inr gap \<and> 0 \<le> gap \<and>
            (\<forall>w\<in>set wavs. device w = device (hd wavs))"
    then have "\<exists>out. combine_wavs model_sr wavs = Inr out"
      by (intro combine_wavs_succeeds [OF n, of model_sr gap]) simp_all
    with gw show "\<exists>out. snd (generate_wav b text params chunk_size) = Inr out"
      by simp
  }
  {
    fix r
    assume r: "sr_or_default model_sr = r \<and> 0 < r \<and> r < 2 ^ 53 \<and> 10 dvd r"
    then show tenth: "silence_samples model_sr = Inr (3 * (r div 10))"
      by (intro silence_samples_tenth) simp_all
    fix out
    assume "snd (generate_wav b text params chunk_size) = Inr out \<and> length wavs = 3"
    with gw have cw: "combine_wavs model_sr wavs = Inr out" and three: "length wavs = 3"
      by simp_all
    from combine_wavs_result [OF n cw] tenth
    have s: "samples out = interleaved (replicate (nat (3 * (r div 10))) 0) (map samples wavs)"
      and pos: "0 \<le> 3 * (r div 10)"
      by auto
    from r have "10 * (r div 10) = r" by simp
    with count [OF s pos] three
    show "10 * int (length (samples out)) =
        10 * int (sum_list (map (\<lambda>w. length (samples w)) wavs)) + 6 * r"
      by simp
  }
qed

theorem generate_wav_concatenation_witness:
  "load_model demo_backend = Inr (Some 24000) \<and>
   generate_all demo_backend () 0 (split_text (pystr_of ''Aa bb. Cc dd. Ee ff.'') 6) =
     ([Generate (pystr_of ''Aa bb.''), Generate (pystr_of ''Cc dd.''), Generate (pystr_of ''Ee ff.'')],
      Inr [\<lparr>dtype = Float32, device = Cpu, samples = [1, 1, 1, 1, 1, 1]\<rparr>,
           \<lparr>dtype = Float32, device = Cpu, samples = [1, 1, 1, 1, 1, 1]\<rparr>,
           \<lparr>dtype = Float32, device = Cpu, samples = [1, 1, 1, 1, 1, 1]\<rparr>]) \<and>
   sr_or_default (Some 24000) = 24000 \<and> (10::int) dvd 24000 \<and>
   silence_samples (Some 24000) = Inr 7200 \<and>
   snd (generate_wav demo_backend (pystr_of ''Aa bb. Cc dd. Ee ff.'') () 6) =
     Inr \<lparr>dtype = Float32, device = Cpu,
          samples = [1, 1, 1, 1, 1, 1] @ replicate 7200 0 @ [1, 1, 1, 1, 1, 1] @
                    replicate 7200 0 @ [1, 1, 1, 1, 1, 1]\<rparr> \<and>
   length ([1, 1, 1, 1, 1, 1] @ replicate 7200 0 @ [1, 1, 1, 1, 1, 1] @
           replicate 7200 0 @ [1, 1, 1, 1, 1, 1 :: int]) = (6 + 6 + 6) + (3 - 1) * 7200 \<and>
   (10::int) * 14418 = 10 * 18 + 6 * 24000"
proof -
  have chunks: "split_text (pystr_of ''Aa bb. Cc dd. Ee ff.'') 6 =
      [pystr_of ''Aa bb.'', pystr_of ''Cc dd.'', pystr_of ''Ee ff.'']"
    by (simp add: chunker_defs)
  have gen: "generate_all demo_backend () 0 (split_text (pystr_of ''Aa bb. Cc dd. Ee ff.'') 6) =
     ([Generate (pystr_of ''Aa bb.''), Generate (pystr_of ''Cc dd.''), Generate (pystr_of ''Ee ff.'')],
      Inr [\<lparr>dtype = Float32, device = Cpu, samples = [1, 1, 1, 1, 1, 1]\<rparr>,
           \<lparr>dtype = Float32, device = Cpu, samples = [1, 1, 1, 1, 1, 1]\<rparr>,
           \<lparr>dtype = Float32, device = Cpu, samples = [1, 1, 1, 1, 1, 1]\<rparr>])"
    unfolding chunks by (simp add: demo_backend_def pystr_of_def)
  have load: "load_model demo_backend = Inr (Some 24000)"
    by (simp add: demo_backend_def)
  have rate: "sr_or_default (Some 24000) = 24000"
    by (simp add: sr_or_default_def)
  have out: "snd (generate_wav demo_backend (pystr_of ''Aa bb. Cc dd. Ee ff.'') () 6) =
     Inr \<lparr>dtype = Float32, device = Cpu,
          samples = [1, 1, 1, 1, 1, 1] @ replicate 7200 0 @ [1, 1, 1, 1, 1, 1] @
                    replicate 7200 0 @ [1, 1, 1, 1, 1, 1]\<rparr>"
    by (simp add: generate_wav_def load gen combine_wavs_two silence_samples_24000
        make_silence_def torch_zeros_def torch_cat3_def)
  from generate_wav_concatenation [of demo_backend "Some 24000" "()"
      "pystr_of ''Aa bb. Cc dd. Ee ff.''" 6, OF load gen] load gen rate out
    silence_samples_24000
  show ?thesis by simp
qed

section \<open>Validation in the request handlers\<close>

lemma chatterbox_missing_text:
  "chatterbox_resolve lib env req = Inr job \<Longrightarrow> strip (job_text job) = [] \<Longrightarrow>
   chatterbox_do_POST lib env b send_wav req =
     (send_text 400 (Text (pystr_of ''missing text\<newline>'')), [])"
  by (simp add: chatterbox_do_POST_def chatterbox_serve_def)

lemma kokomo_missing_text:
  "kokomo_resolve lib srv req = Inr (t, m) \<Longrightarrow> strip t = [] \<Longrightarrow>
   kokomo_do_POST lib srv tmpdir run req =
     (send_text 400 (Text (pystr_of ''missing text\<newline>'')), [])"
  by (simp add: kokomo_do_POST_def kokomo_serve_def)

lemma strip_Nil: "strip [] = []"
  by (simp add: strip_def)

lemma text_of_empty_text:
  "py_str lib (py_or (py_or (dict_get [(pystr_of ''text'', JStr [])] (pystr_of ''text''))
                        (dict_get [(pystr_of ''text'', JStr [])] (pystr_of ''input'')))
                 (JStr [])) = []"
  by (simp add: py_str_def py_or_def dict_get_def pystr_of_def)

lemma chatterbox_resolve_empty_text:
  assumes "req_path req = pystr_of ''/tts''" and "req_content_length req = Inr len"
    and "contains (pystr_of ''application/json'') (req_content_type req)"
    and "read_body req len \<noteq> []"
    and "json_loads lib (read_body req len) = Inr (JObj [(pystr_of ''text'', JStr [])])"
    and "env_exaggeration env = Inr ex" and "env_temperature env = Inr te"
    and "env_cfg_weight env = Inr cf" and "env_chunk_size env = Inr cs"
  shows "\<exists>job. chatterbox_resolve lib env req = Inr job \<and> job_text job = []"
  using assms
  by (simp add: chatterbox_resolve_def chatterbox_payload_def override_def Let_def
      py_str_def py_or_def dict_get_def pystr_of_def)

lemma kokomo_resolve_empty_text:
  assumes "req_path req = pystr_of ''/tts''" and "req_content_length req = Inr len"
    and "contains (pystr_of ''application/json'') (req_content_type req)"
    and "read_body req len \<noteq> []"
    and "json_loads lib (read_body req len) = Inr (JObj [(pystr_of ''text'', JStr [])])"
  shows "\<exists>m. kokomo_resolve lib srv req = Inr ([], m)"
  using assms by (simp add: kokomo_resolve_def text_of_empty_text)

lemma text_of_empty_dict:
  "py_str lib (py_or (py_or (dict_get [] (pystr_of ''text'')) (dict_get [] (pystr_of ''input'')))
                 (JStr [])) = []"
  by (simp add: py_str_def py_or_def dict_get_def)

lemma chatterbox_resolve_empty_body:
  assumes "req_path req = pystr_of ''/tts''" and "req_content_length req = Inr len"
    and "read_body req len = []" and "decode_replace lib [] = []"
    and "env_exaggeration env = Inr ex" and "env_temperature env = Inr te"
    and "env_cfg_weight env = Inr cf" and "env_chunk_size env = Inr cs"
  shows "\<exists>job. chatterbox_resolve lib env req = Inr job \<and> job_text job = []"
  using assms
  by (simp add: chatterbox_resolve_def chatterbox_payload_def override_def Let_def
      py_str_def py_or_def dict_get_def)

lemma kokomo_resolve_empty_body:
  assumes "req_path req = pystr_of ''/tts''" and "req_content_length req = Inr len"
    and "read_body req len = []" and "decode_replace lib [] = []"
  shows "\<exists>m. kokomo_resolve lib srv req = Inr ([], m)"
  using assms by (simp add: kokomo_resolve_def text_of_empty_dict)

lemma chat_validate_wrong_model:
  assumes "req_path req \<in> set chat_paths" and "req_content_length req = Inr len" and "0 < len"
    and "json_loads lib (take (nat len) (req_rfile req)) = Inr (JObj kvs)"
    and "dict_get kvs (pystr_of ''messages'') = JArr messages" and "messages \<noteq> []"
    and "truthy (dict_get kvs (pystr_of ''model''))"
    and "py_str lib (dict_get kvs (pystr_of ''model'')) \<noteq> bound"
  shows "chat_validate var lib bound req = Inl (send_json 400 (JsonDump (wrong_model var bound)))"
  using assms by (simp add: chat_validate_def py_or_def)

lemma chat_validate_passes:
  assumes "chat_validate var lib bound req = Inr (payload, messages)"
  shows "\<exists>kvs. payload = JObj kvs \<and>
           py_str lib (py_or (dict_get kvs (pystr_of ''model'')) (JStr bound)) = bound"
  using assms
  by (auto simp: chat_validate_def split: if_splits sum.splits json.splits)

lemmas demo_defs = demo_library_def demo_env_def demo_request_def demo_send_wav_def demo_run_def
  demo_kokomo_def tts_empty_body_def tts_other_body_def chat_other_body_def quoted_def

lemmas body_defs = tts_empty_body_def tts_other_body_def chat_other_body_def quoted_def

lemma demo_loads_empty:
  "json_loads demo_library tts_empty_body = Inr (JObj [(pystr_of ''text'', JStr [])])"
  by (simp add: demo_library_def)

lemma demo_loads_other:
  "json_loads demo_library tts_other_body =
     Inr (JObj [(pystr_of ''text'', JStr (pystr_of ''hi'')),
                (pystr_of ''model'', JStr (pystr_of ''other-model''))])"
  by (simp add: demo_library_def body_defs)

lemma demo_loads_chat:
  "json_loads demo_library chat_other_body =
     Inr (JObj [(pystr_of ''model'', JStr (pystr_of ''other-model'')),
                (pystr_of ''messages'',
                 JArr [JObj [(pystr_of ''role'', JStr (pystr_of ''user'')),
                             (pystr_of ''content'', JStr (pystr_of ''hi''))]])])"
  by (simp add: demo_library_def body_defs)

text \<open>
  C9. In both TTS gateways, a \<open>POST /tts\<close> whose text resolves (lines 176 to 208 of
  the chatterbox server, 52 to 72 of the kokomo server, send no response of their
  own) and is empty after trimming is answered with status 400 and the body
  \<open>missing text\<close>, and no call to the model and no generator command is made. This
  covers the JSON body \<open>{"text":""}\<close> and an empty body, for which the text does
  resolve (in the chatterbox server when the defaults in its environment are
  numbers).
\<close>

theorem tts_missing_text:
  "(chatterbox_resolve lib env req = Inr job \<and> strip (job_text job) = [] \<longrightarrow>
      chatterbox_do_POST lib env b send_wav req =
        (send_text 400 (Text (pystr_of ''missing text\<newline>'')), [])) \<and>
   (kokomo_resolve lib srv req = Inr (t, m) \<and> strip t = [] \<longrightarrow>
      kokomo_do_POST lib srv tmpdir run req =
        (send_text 400 (Text (pystr_of ''missing text\<newline>'')), [])) \<and>
   (req_path req = pystr_of ''/tts'' \<and> req_content_length req = Inr len \<and>
    ((contains (pystr_of ''application/json'') (req_content_type req) \<and>
      read_body req len \<noteq> [] \<and>
      json_loads lib (read_body req len) = Inr (JObj [(pystr_of ''text'', JStr [])])) \<or>
     (read_body req len = [] \<and> decode_replace lib [] = [])) \<longrightarrow>
      kokomo_do_POST lib srv tmpdir run req =
        (send_text 400 (Text (pystr_of ''missing text\<newline>'')), []) \<and>
      (env_exaggeration env = Inr ex \<and> env_temperature env = Inr te \<and>
       env_cfg_weight env = Inr cf \<and> env_chunk_size env = Inr cs \<longrightarrow>
         chatterbox_do_POST lib env b send_wav req =
           (send_text 400 (Text (pystr_of ''missing text\<newline>'')), [])))"
proof (intro conjI impI)
  assume "chatterbox_resolve lib env req = Inr job \<and> strip (job_text job) = []"
  then show "chatterbox_do_POST lib env b send_wav req =
      (send_text 400 (Text (pystr_of ''missing text\<newline>'')), [])"
    by (simp add: chatterbox_missing_text)
next
  assume "kokomo_resolve lib srv req = Inr (t, m) \<and> strip t = []"
  then show "kokomo_do_POST lib srv tmpdir run req =
      (send_text 400 (Text (pystr_of ''missing text\<newline>'')), [])"
    by (simp add: kokomo_missing_text)
next
  assume a: "req_path req = pystr_of ''/tts'' \<and> req_content_length req = Inr len \<and>
    ((contains (pystr_of ''application/json'') (req_content_type req) \<and>
      read_body req len \<noteq> [] \<and>
      json_loads lib (read_body req len) = Inr (JObj [(pystr_of ''text'', JStr [])])) \<or>
     (read_body req len = [] \<and> decode_replace lib [] = []))"
  then have "\<exists>m. kokomo_resolve lib srv req = Inr ([], m)"
    using kokomo_resolve_empty_text [of req len lib srv]
      kokomo_resolve_empty_body [of req len lib srv] by blast
  then show "kokomo_do_POST lib srv tmpdir run req =
      (send_text 400 (Text (pystr_of ''missing text\<newline>'')), [])"
    using kokomo_missing_text [of lib srv req "[]"] strip_Nil by blast
  assume e: "env_exaggeration env = Inr ex \<and> env_temperature env = Inr te \<and>
       env_cfg_weight env = Inr cf \<and> env_chunk_size env = Inr cs"
  with a have "\<exists>job. chatterbox_resolve lib env req = Inr job \<and> job_text job = []"
    using chatterbox_resolve_empty_text [of req len lib env ex te cf cs]
      chatterbox_resolve_empty_body [of req len lib env ex te cf cs] by blast
  then show "chatterbox_do_POST lib env b send_wav req =
      (send_text 400 (Text (pystr_of ''missing text\<newline>'')), [])"
    using chatterbox_missing_text [of lib env req _ b send_wav] strip_Nil by metis
qed

theorem tts_missing_text_witness:
  "req_path (demo_request (pystr_of ''/tts'') (pystr_of ''application/json'') tts_empty_body) =
     pystr_of ''/tts'' \<and>
   req_content_length (demo_request (pystr_of ''/tts'') (pystr_of ''application/json'') tts_empty_body) =
     Inr 11 \<and>
   contains (pystr_of ''application/json'')
     (req_content_type (demo_request (pystr_of ''/tts'') (pystr_of ''application/json'') tts_empty_body)) \<and>
   json_loads demo_library
     (read_body (demo_request (pystr_of ''/tts'') (pystr_of ''application/json'') tts_empty_body) 11) =
     Inr (JObj [(pystr_of ''text'', JStr [])]) \<and>
   kokomo_do_POST demo_library demo_kokomo (pystr_of ''/tmp/agentloop-kokomo-x'') demo_run
     (demo_request (pystr_of ''/tts'') (pystr_of ''application/json'') tts_empty_body) =
     (send_text 400 (Text (pystr_of ''missing text\<newline>'')), []) \<and>
   chatterbox_do_POST demo_library demo_env demo_backend demo_send_wav
     (demo_request (pystr_of ''/tts'') (pystr_of ''application/json'') tts_empty_body) =
     (send_text 400 (Text (pystr_of ''missing text\<newline>'')), []) \<and>
   read_body (demo_request (pystr_of ''/tts'') (pystr_of ''text/plain'') []) 0 = [] \<and>
   decode_replace demo_library [] = [] \<and>
   kokomo_do_POST demo_library demo_kokomo (pystr_of ''/tmp/agentloop-kokomo-x'') demo_run
     (demo_request (pystr_of ''/tts'') (pystr_of ''text/plain'') []) =
     (send_text 400 (Text (pystr_of ''missing text\<newline>'')), []) \<and>
   chatterbox_do_POST demo_library demo_env demo_backend demo_send_wav
     (demo_request (pystr_of ''/tts'') (pystr_of ''text/plain'') []) =
     (send_text 400 (Text (pystr_of ''missing text\<newline>'')), [])"
proof -
  let ?req = "demo_request (pystr_of ''/tts'') (pystr_of ''application/json'') tts_empty_body"
  let ?raw = "demo_request (pystr_of ''/tts'') (pystr_of ''text/plain'') []"
  have p: "req_path ?req = pystr_of ''/tts''" and l: "req_content_length ?req = Inr 11"
    by (simp_all add: demo_defs)
  have c: "contains (pystr_of ''application/json'') (req_content_type ?req)"
    by (simp add: demo_defs pystr_of_def)
  have r: "read_body ?req 11 = tts_empty_body"
    by (simp add: read_body_def demo_defs)
  note j = demo_loads_empty
  have n: "tts_empty_body \<noteq> []"
    by (simp add: demo_defs)
  have e: "env_exaggeration demo_env = Inr (Finite 1 0) \<and>
           env_temperature demo_env = Inr (Finite 3152519739159347 (- 52)) \<and>
           env_cfg_weight demo_env = Inr (Finite 1 (- 1)) \<and> env_chunk_size demo_env = Inr 250"
    by (simp add: demo_env_def)
  have p': "req_path ?raw = pystr_of ''/tts''" and l': "req_content_length ?raw = Inr 0"
    and r': "read_body ?raw 0 = []" and d': "decode_replace demo_library [] = []"
    by (simp_all add: read_body_def demo_defs pystr_of_def)
  from tts_missing_text [where req = ?req and len = 11 and lib = demo_library
      and env = demo_env and srv = demo_kokomo and b = demo_backend
      and send_wav = demo_send_wav and run = demo_run
      and tmpdir = "pystr_of ''/tmp/agentloop-kokomo-x''"
      and ex = "Finite 1 0" and te = "Finite 3152519739159347 (- 52)"
      and cf = "Finite 1 (- 1)" and cs = 250]
    p l c r j n e
  have json: "kokomo_do_POST demo_library demo_kokomo (pystr_of ''/tmp/agentloop-kokomo-x'')
        demo_run ?req = (send_text 400 (Text (pystr_of ''missing text\<newline>'')), []) \<and>
      chatterbox_do_POST demo_library demo_env demo_backend demo_send_wav ?req =
        (send_text 400 (Text (pystr_of ''missing text\<newline>'')), [])"
    by simp
  from tts_missing_text [where req = ?raw and len = 0 and lib = demo_library
      and env = demo_env and srv = demo_kokomo and b = demo_backend
      and send_wav = demo_send_wav and run = demo_run
      and tmpdir = "pystr_of ''/tmp/agentloop-kokomo-x''"
      and ex = "Finite 1 0" and te = "Finite 3152519739159347 (- 52)"
      and cf = "Finite 1 (- 1)" and cs = 250]
    p' l' r' d' e
  have empty: "kokomo_do_POST demo_library demo_kokomo (pystr_of ''/tmp/agentloop-kokomo-x'')
        demo_run ?raw = (send_text 400 (Text (pystr_of ''missing text\<newline>'')), []) \<and>
      chatterbox_do_POST demo_library demo_env demo_backend demo_send_wav ?raw =
        (send_text 400 (Text (pystr_of ''missing text\<newline>'')), [])"
    by simp
  from json empty p l c r j r' d' show ?thesis by simp
qed

text \<open>
  C3. The claim that every gateway rejects a request naming another model fails for
  the two TTS gateways. The kokomo server bound to \<open>my-model\<close> runs its generator with
  \<open>--model other-model\<close> for the body \<open>{"text":"hi","model":"other-model"}\<close>; the
  chatterbox server never reads the \<open>model\<close> entry and synthesises with the model it
  loaded.
\<close>

theorem model_enforced_counterexample:
  "srv_model demo_kokomo = pystr_of ''my-model'' \<and>
   json_loads demo_library tts_other_body =
     Inr (JObj [(pystr_of ''text'', JStr (pystr_of ''hi'')),
                (pystr_of ''model'', JStr (pystr_of ''other-model''))]) \<and>
   kokomo_do_POST demo_library demo_kokomo (pystr_of ''/tmp/agentloop-kokomo-x'') demo_run
     (demo_request (pystr_of ''/tts'') (pystr_of ''application/json'') tts_other_body) =
     (Sent \<lparr>status = 200, body = Audio ''RIFF'', ctype = pystr_of ''audio/wav''\<rparr>,
      [[pystr_of ''mlx_audio.tts.generate'', pystr_of ''--model'', pystr_of ''other-model'',
        pystr_of ''--text'', pystr_of ''hi'', pystr_of ''--file_prefix'',
        pystr_of ''/tmp/agentloop-kokomo-x/out'', pystr_of ''--audio_format'', pystr_of ''wav'',
        pystr_of ''--join_audio'']]) \<and>
   chatterbox_do_POST demo_library demo_env demo_backend demo_send_wav
     (demo_request (pystr_of ''/tts'') (pystr_of ''application/json'') tts_other_body) =
     (Sent \<lparr>status = 200, body = Audio ''RIFF'', ctype = pystr_of ''audio/wav''\<rparr>,
      [LoadModel, Generate (pystr_of ''hi'')])"
proof -
  let ?req = "demo_request (pystr_of ''/tts'') (pystr_of ''application/json'') tts_other_body"
  let ?kvs = "[(pystr_of ''text'', JStr (pystr_of ''hi'')),
               (pystr_of ''model'', JStr (pystr_of ''other-model''))]"
  note j = demo_loads_other
  have r: "read_body ?req (int (length tts_other_body)) = tts_other_body"
    and n: "tts_other_body \<noteq> []"
    by (simp_all add: read_body_def demo_defs)
  have c: "contains (pystr_of ''application/json'') (pystr_of ''application/json'')"
    by (simp add: pystr_of_def)
  have g: "dict_get ?kvs (pystr_of ''text'') = JStr (pystr_of ''hi'')"
    "dict_get ?kvs (pystr_of ''model'') = JStr (pystr_of ''other-model'')"
    "dict_get ?kvs (pystr_of ''audio_prompt_path'') = JNull"
    "dict_get ?kvs (pystr_of ''voice'') = JNull"
    "dict_get ?kvs (pystr_of ''exaggeration'') = JNull"
    "dict_get ?kvs (pystr_of ''temperature'') = JNull"
    "dict_get ?kvs (pystr_of ''cfg_weight'') = JNull"
    "dict_get ?kvs (pystr_of ''chunk_size'') = JNull"
    by (simp_all add: dict_get_def pystr_of_def)
  have hi: "pystr_of ''hi'' \<noteq> []" "strip (pystr_of ''hi'') = pystr_of ''hi''"
    "pystr_of ''other-model'' \<noteq> []"
    by (simp_all add: pystr_of_def strip_def isspace_def)
  have k: "kokomo_resolve demo_library demo_kokomo ?req =
      Inr (pystr_of ''hi'', pystr_of ''other-model'')"
    using r n j c g hi
    by (simp add: kokomo_resolve_def demo_request_def py_or_def py_str_def)
  have kd: "kokomo_do_POST demo_library demo_kokomo (pystr_of ''/tmp/agentloop-kokomo-x'') demo_run ?req =
     (Sent \<lparr>status = 200, body = Audio ''RIFF'', ctype = pystr_of ''audio/wav''\<rparr>,
      [[pystr_of ''mlx_audio.tts.generate'', pystr_of ''--model'', pystr_of ''other-model'',
        pystr_of ''--text'', pystr_of ''hi'', pystr_of ''--file_prefix'',
        pystr_of ''/tmp/agentloop-kokomo-x/out'', pystr_of ''--audio_format'', pystr_of ''wav'',
        pystr_of ''--join_audio'']])"
    unfolding kokomo_do_POST_def k using hi
    by (simp add: kokomo_serve_def demo_kokomo_def demo_run_def kokomo_cmd_def pystr_of_def)
  have cr: "chatterbox_resolve demo_library demo_env ?req =
      Inr \<lparr>job_text = pystr_of ''hi'',
           job_params = \<lparr>audio_prompt_path = JNull, exaggeration = Finite 1 0,
                         temperature = Finite 3152519739159347 (- 52), cfg_weight = Finite 1 (- 1)\<rparr>,
           job_chunk_size = 250\<rparr>"
    using r n j c g hi
    by (simp add: chatterbox_resolve_def chatterbox_payload_def override_def demo_request_def
        demo_env_def py_or_def py_str_def Let_def)
  have st: "split_text (pystr_of ''hi'') 250 = [pystr_of ''hi'']"
    by (simp add: split_text_def pystr_of_def)
  have cd: "chatterbox_do_POST demo_library demo_env demo_backend demo_send_wav ?req =
     (Sent \<lparr>status = 200, body = Audio ''RIFF'', ctype = pystr_of ''audio/wav''\<rparr>,
      [LoadModel, Generate (pystr_of ''hi'')])"
    unfolding chatterbox_do_POST_def cr using hi
    by (simp add: chatterbox_serve_def generate_wav_def st
        demo_backend_def combine_wavs_def demo_send_wav_def)
  show ?thesis using j kd cd by (simp add: demo_kokomo_def)
qed

text \<open>
  C3, as amended. In the two chat gateways (mlx and vlm), a \<open>POST\<close> to a completions
  path whose body parses to an object with a non-empty \<open>messages\<close> list and a \<open>model\<close>
  entry that is truthy and whose \<open>str\<close> differs from the bound model id is answered
  with status 400 and a JSON body whose \<open>model\<close> entry is the bound model id, and
  nothing is generated. The rest of the handler runs only for a payload whose model,
  when it names one, is the bound model.
\<close>

theorem chat_model_enforced:
  "(req_path req \<in> set chat_paths \<and> req_content_length req = Inr len \<and> 0 < len \<and>
    json_loads lib (take (nat len) (req_rfile req)) = Inr (JObj kvs) \<and>
    dict_get kvs (pystr_of ''messages'') = JArr messages \<and> messages \<noteq> [] \<and>
    truthy (dict_get kvs (pystr_of ''model'')) \<and>
    py_str lib (dict_get kvs (pystr_of ''model'')) \<noteq> bound \<longrightarrow>
      mlx_do_POST lib bound reply req =
        (send_json 400 (JsonDump (wrong_model (pystr_of ''MLX_MODEL'') bound)), []) \<and>
      vlm_do_POST lib bound reply req =
        (send_json 400 (JsonDump (wrong_model (pystr_of ''VLM_MODEL'') bound)), [])) \<and>
   (\<exists>items. wrong_model var bound = JObj items \<and>
      dict_get items (pystr_of ''model'') = JStr bound) \<and>
   (\<forall>payload msgs. chat_validate var lib bound req = Inr (payload, msgs) \<longrightarrow>
      (\<exists>items. payload = JObj items \<and>
         py_str lib (py_or (dict_get items (pystr_of ''model'')) (JStr bound)) = bound))"
proof (intro conjI impI allI)
  assume a: "req_path req \<in> set chat_paths \<and> req_content_length req = Inr len \<and> 0 < len \<and>
    json_loads lib (take (nat len) (req_rfile req)) = Inr (JObj kvs) \<and>
    dict_get kvs (pystr_of ''messages'') = JArr messages \<and> messages \<noteq> [] \<and>
    truthy (dict_get kvs (pystr_of ''model'')) \<and>
    py_str lib (dict_get kvs (pystr_of ''model'')) \<noteq> bound"
  then have v: "chat_validate var' lib bound req =
      Inl (send_json 400 (JsonDump (wrong_model var' bound)))" for var'
    by (intro chat_validate_wrong_model [of req len lib kvs messages]) simp_all
  show "mlx_do_POST lib bound reply req =
      (send_json 400 (JsonDump (wrong_model (pystr_of ''MLX_MODEL'') bound)), [])"
    by (simp add: mlx_do_POST_def v)
  show "vlm_do_POST lib bound reply req =
      (send_json 400 (JsonDump (wrong_model (pystr_of ''VLM_MODEL'') bound)), [])"
    by (simp add: vlm_do_POST_def v)
next
  show "\<exists>items. wrong_model var bound = JObj items \<and>
      dict_get items (pystr_of ''model'') = JStr bound"
    by (simp add: wrong_model_def dict_get_def pystr_of_def)
next
  fix payload msgs
  assume "chat_validate var lib bound req = Inr (payload, msgs)"
  then show "\<exists>items. payload = JObj items \<and>
      py_str lib (py_or (dict_get items (pystr_of ''model'')) (JStr bound)) = bound"
    by (rule chat_validate_passes)
qed

theorem chat_model_enforced_witness:
  "req_path (demo_request (pystr_of ''/v1/chat/completions'') (pystr_of ''application/json'')
     chat_other_body) \<in> set chat_paths \<and>
   json_loads demo_library chat_other_body =
     Inr (JObj [(pystr_of ''model'', JStr (pystr_of ''other-model'')),
                (pystr_of ''messages'',
                 JArr [JObj [(pystr_of ''role'', JStr (pystr_of ''user'')),
                             (pystr_of ''content'', JStr (pystr_of ''hi''))]])]) \<and>
   pystr_of ''other-model'' \<noteq> pystr_of ''my-model'' \<and>
   mlx_do_POST demo_library (pystr_of ''my-model'') demo_reply
     (demo_request (pystr_of ''/v1/chat/completions'') (pystr_of ''application/json'')
        chat_other_body) =
     (send_json 400 (JsonDump (JObj
        [(pystr_of ''error'',
          JStr (pystr_of
            ''this server is started with a single model; restart with MLX_MODEL to change'')),
         (pystr_of ''model'', JStr (pystr_of ''my-model''))])), []) \<and>
   vlm_do_POST demo_library (pystr_of ''my-model'') demo_reply
     (demo_request (pystr_of ''/v1/chat/completions'') (pystr_of ''application/json'')
        chat_other_body) =
     (send_json 400 (JsonDump (JObj
        [(pystr_of ''error'',
          JStr (pystr_of
            ''this server is started with a single model; restart with VLM_MODEL to change'')),
         (pystr_of ''model'', JStr (pystr_of ''my-model''))])), [])"
proof -
  let ?req = "demo_request (pystr_of ''/v1/chat/completions'') (pystr_of ''application/json'')
     chat_other_body"
  let ?kvs = "[(pystr_of ''model'', JStr (pystr_of ''other-model'')),
                (pystr_of ''messages'',
                 JArr [JObj [(pystr_of ''role'', JStr (pystr_of ''user'')),
                             (pystr_of ''content'', JStr (pystr_of ''hi''))]])]"
  have p: "req_path ?req \<in> set chat_paths"
    by (simp add: demo_request_def chat_paths_def)
  have l: "req_content_length ?req = Inr (int (length chat_other_body))"
    and pos: "0 < int (length chat_other_body)"
    by (simp_all add: demo_defs)
  have j: "json_loads demo_library (take (nat (int (length chat_other_body))) (req_rfile ?req)) =
      Inr (JObj ?kvs)"
    by (simp add: demo_request_def demo_loads_chat)
  note j' = demo_loads_chat
  have m: "dict_get ?kvs (pystr_of ''messages'') =
      JArr [JObj [(pystr_of ''role'', JStr (pystr_of ''user'')),
                  (pystr_of ''content'', JStr (pystr_of ''hi''))]]"
    and t: "truthy (dict_get ?kvs (pystr_of ''model''))"
    and d: "py_str demo_library (dict_get ?kvs (pystr_of ''model'')) \<noteq> pystr_of ''my-model''"
    and ne: "pystr_of ''other-model'' \<noteq> pystr_of ''my-model''"
    by (simp_all add: dict_get_def py_str_def pystr_of_def)
  from chat_model_enforced [where req = ?req and len = "int (length chat_other_body)"
      and lib = demo_library and kvs = ?kvs and bound = "pystr_of ''my-model''"
      and reply = demo_reply
      and messages = "[JObj [(pystr_of ''role'', JStr (pystr_of ''user'')),
                             (pystr_of ''content'', JStr (pystr_of ''hi''))]]"] p l pos j m t d
  have "mlx_do_POST demo_library (pystr_of ''my-model'') demo_reply ?req =
          (send_json 400 (JsonDump (wrong_model (pystr_of ''MLX_MODEL'') (pystr_of ''my-model''))), []) \<and>
        vlm_do_POST demo_library (pystr_of ''my-model'') demo_reply ?req =
          (send_json 400 (JsonDump (wrong_model (pystr_of ''VLM_MODEL'') (pystr_of ''my-model''))), [])"
    by simp
  with p j' ne show ?thesis
    by (simp add: wrong_model_def pystr_of_def)
qed

section \<open>The lock of the mlx gateway\<close>

lemma move_to_keeps:
  "lock_kept s \<Longrightarrow> \<not> in_with_block p \<Longrightarrow> lock_kept (move_to s i p)"
  by (auto simp: lock_kept_def move_to_def split: if_splits)

lemma move_inside_keeps:
  assumes "lock_kept s" and "in_with_block (pc_of s i)"
  shows "lock_kept (move_to s i p)"
proof -
  from assms have mine: "lock_holder s = Some i" by (simp add: lock_kept_def)
  with assms(1) have "\<forall>j. j \<noteq> i \<longrightarrow> \<not> in_with_block (pc_of s j)"
    by (auto simp: lock_kept_def)
  with mine show ?thesis
    by (auto simp: lock_kept_def move_to_def split: if_splits)
qed

lemma unlock_to_keeps:
  assumes "lock_kept s" and "in_with_block (pc_of s i)" and "\<not> in_with_block p"
  shows "lock_kept (unlock_to s i p)"
proof -
  from assms(1,2) have "lock_holder s = Some i" by (simp add: lock_kept_def)
  with assms(1) have "\<forall>j. j \<noteq> i \<longrightarrow> \<not> in_with_block (pc_of s j)"
    by (auto simp: lock_kept_def)
  with assms(3) show ?thesis
    by (auto simp: lock_kept_def unlock_to_def split: if_splits)
qed

lemma acquire_keeps:
  assumes "lock_kept s" and "lock_holder s = None"
  shows "lock_kept (s\<lparr>lock_holder := Some i, pc_of := (pc_of s)(i := p)\<rparr>)"
proof -
  from assms have "\<forall>j. \<not> in_with_block (pc_of s j)" by (auto simp: lock_kept_def)
  then show ?thesis by (simp add: lock_kept_def)
qed

lemmas pc_defs = in_with_block_def generating_def

lemma mlx_step_keeps:
  assumes "lock_kept s" and "mlx_step lib bound reqs s i res = Some s'"
  shows "lock_kept s'"
proof (cases "pc_of s i")
  case Received
  with assms show ?thesis
    by (auto simp: mlx_step_def pc_defs intro!: move_to_keeps split: sum.splits)
next
  case Parameters
  with assms show ?thesis
    by (auto simp: mlx_step_def pc_defs intro!: move_to_keeps split: if_splits)
next
  case Prompt
  with assms show ?thesis
    by (auto simp: mlx_step_def pc_defs intro!: move_to_keeps split: if_splits)
next
  case Acquire
  with assms show ?thesis
    by (auto simp: mlx_step_def intro!: acquire_keeps split: if_splits)
next
  case ImportGenerate
  then have g: "in_with_block (pc_of s i)" by (simp add: pc_defs)
  from ImportGenerate assms(2)
  have "s' = (if res = Returns then move_to s i GenerateTemp else unlock_to s i Done)"
    by (simp add: mlx_step_def)
  with assms(1) g show ?thesis
    by (simp add: unlock_to_keeps move_inside_keeps pc_defs)
next
  case GenerateTemp
  then have g: "in_with_block (pc_of s i)" by (simp add: pc_defs)
  from GenerateTemp assms(2) have "s' = (case res of
      Returns \<Rightarrow> unlock_to s i Respond
    | RaisesTypeError \<Rightarrow> move_to s i GenerateTemperature
    | Raises \<Rightarrow> unlock_to s i Done)"
    by (simp add: mlx_step_def)
  with assms(1) g show ?thesis
    by (cases res) (simp_all add: unlock_to_keeps move_inside_keeps pc_defs)
next
  case GenerateTemperature
  then have g: "in_with_block (pc_of s i)" by (simp add: pc_defs)
  from GenerateTemperature assms(2)
  have "s' = unlock_to s i (if res = Returns then Respond else Done)"
    by (simp add: mlx_step_def)
  with assms(1) g show ?thesis
    by (simp add: unlock_to_keeps pc_defs)
next
  case Respond
  with assms show ?thesis
    by (auto simp: mlx_step_def pc_defs intro!: move_to_keeps)
next
  case Done
  with assms show ?thesis by (simp add: mlx_step_def)
qed

lemma mlx_run_keeps:
  "lock_kept s \<Longrightarrow> mlx_run lib bound reqs s schedule = Some s' \<Longrightarrow> lock_kept s'"
proof (induction schedule arbitrary: s)
  case Nil
  then show ?case by simp
next
  case (Cons step schedule)
  obtain i res where step: "step = (i, res)" by (cases step)
  with Cons.prems(2) obtain s1 where adv: "mlx_step lib bound reqs s i res = Some s1"
    and rest: "mlx_run lib bound reqs s1 schedule = Some s'"
    by (auto split: option.splits)
  from Cons.IH [OF mlx_step_keeps [OF Cons.prems(1) adv] rest] show ?case .
qed

lemma mlx_started_kept: "lock_kept mlx_started"
  by (simp add: lock_kept_def mlx_started_def pc_defs)

lemma demo_chat_passes:
  "chat_validate (pystr_of ''MLX_MODEL'') demo_library (pystr_of ''other-model'')
     (demo_chat_requests i) =
   Inr (JObj [(pystr_of ''model'', JStr (pystr_of ''other-model'')),
              (pystr_of ''messages'',
               JArr [JObj [(pystr_of ''role'', JStr (pystr_of ''user'')),
                           (pystr_of ''content'', JStr (pystr_of ''hi''))]])],
        [JObj [(pystr_of ''role'', JStr (pystr_of ''user'')),
               (pystr_of ''content'', JStr (pystr_of ''hi''))]])"
proof -
  have len: "0 < int (length chat_other_body)"
    "take (length chat_other_body) chat_other_body = chat_other_body"
    by (simp_all add: body_defs)
  have path: "pystr_of ''/v1/chat/completions'' \<in> set chat_paths"
    by (simp add: chat_paths_def)
  show ?thesis
    using len path
    by (simp add: chat_validate_def demo_chat_requests_def demo_request_def demo_loads_chat
        dict_get_def py_or_def py_str_def) (simp add: pystr_of_def)
qed

lemma mlx_step_at:
  "pc_of s i = Received \<Longrightarrow>
     mlx_step lib bound reqs s i res =
       (case chat_validate (pystr_of ''MLX_MODEL'') lib bound (reqs i) of
          Inl out \<Rightarrow> Some (move_to s i Done)
        | Inr ok \<Rightarrow> Some (move_to s i Parameters))"
  "pc_of s i = Parameters \<Longrightarrow>
     mlx_step lib bound reqs s i res = Some (move_to s i (if res = Returns then Prompt else Done))"
  "pc_of s i = Prompt \<Longrightarrow>
     mlx_step lib bound reqs s i res = Some (move_to s i (if res = Returns then Acquire else Done))"
  "pc_of s i = Acquire \<Longrightarrow>
     mlx_step lib bound reqs s i res =
       (if lock_holder s = None
        then Some (s\<lparr>lock_holder := Some i, pc_of := (pc_of s)(i := ImportGenerate)\<rparr>)
        else None)"
  "pc_of s i = ImportGenerate \<Longrightarrow>
     mlx_step lib bound reqs s i res =
       Some (if res = Returns then move_to s i GenerateTemp else unlock_to s i Done)"
  by (simp_all add: mlx_step_def)

text \<open>
  C10. In every state the requests of the mlx server reach, by any interleaving of
  their steps from the start, a request whose \<open>generate\<close> call is running holds the
  server's lock; so at most one request has a \<open>generate\<close> call running, and while it
  runs a request that has come to line 136 cannot move.
\<close>

theorem mlx_single_flight:
  assumes "mlx_run lib bound reqs mlx_started schedule = Some s"
  shows "(\<forall>i. generating (pc_of s i) \<longrightarrow> lock_holder s = Some i) \<and>
         (\<forall>i j. generating (pc_of s i) \<and> generating (pc_of s j) \<longrightarrow> i = j) \<and>
         (\<forall>i j res. generating (pc_of s i) \<and> j \<noteq> i \<and> pc_of s j = Acquire \<longrightarrow>
            mlx_step lib bound reqs s j res = None)"
proof -
  from mlx_run_keeps [OF mlx_started_kept assms]
  have k: "\<And>i. generating (pc_of s i) \<Longrightarrow> lock_holder s = Some i"
    by (simp add: lock_kept_def in_with_block_def)
  show ?thesis
  proof (intro conjI allI impI)
    fix i
    assume "generating (pc_of s i)"
    then show "lock_holder s = Some i" by (rule k)
  next
    fix i j
    assume "generating (pc_of s i) \<and> generating (pc_of s j)"
    then have "lock_holder s = Some i" "lock_holder s = Some j" by (simp_all add: k)
    then show "i = j" by simp
  next
    fix i j res
    assume "generating (pc_of s i) \<and> j \<noteq> i \<and> pc_of s j = Acquire"
    then have "lock_holder s = Some i" "pc_of s j = Acquire" by (simp_all add: k)
    then show "mlx_step lib bound reqs s j res = None" by (simp add: mlx_step_def)
  qed
qed

theorem mlx_single_flight_witness:
  "mlx_run demo_library (pystr_of ''other-model'') demo_chat_requests mlx_started
     [(0, Returns), (0, Returns), (0, Returns), (0, Returns), (0, Returns),
      (1, Returns), (1, Returns), (1, Returns)] =
     Some \<lparr>lock_holder = Some 0, pc_of = (\<lambda>i. Received)(0 := GenerateTemp, 1 := Acquire)\<rparr> \<and>
   generating GenerateTemp \<and>
   mlx_step demo_library (pystr_of ''other-model'') demo_chat_requests
     \<lparr>lock_holder = Some 0, pc_of = (\<lambda>i. Received)(0 := GenerateTemp, 1 := Acquire)\<rparr>
     1 Returns = None"
proof -
  let ?s = "\<lparr>lock_holder = Some 0, pc_of = (\<lambda>i. Received)(0 := GenerateTemp, 1 := Acquire)\<rparr>"
  have run: "mlx_run demo_library (pystr_of ''other-model'') demo_chat_requests mlx_started
     [(0, Returns), (0, Returns), (0, Returns), (0, Returns), (0, Returns),
      (1, Returns), (1, Returns), (1, Returns)] = Some ?s"
    by (simp add: mlx_step_at mlx_started_def move_to_def demo_chat_passes)
  have g: "generating (pc_of ?s 0)" "(1::nat) \<noteq> 0" "pc_of ?s 1 = Acquire"
    by (simp_all add: generating_def)
  from mlx_single_flight [OF run] g
  have blocked: "mlx_step demo_library (pystr_of ''other-model'')
      demo_chat_requests ?s 1 Returns = None"
    by blast
  have "generating GenerateTemp" by (simp add: generating_def)
  with run blocked show ?thesis by (intro conjI)
qed

end
